theory Spec2Isabelle
  imports Complex_Main "HOL-Library.Multiset"
begin

section \<open>JavaScript values\<close>

text \<open>
  A number is the real value of a finite double, a string is a \<open>string\<close>, and a
  property that may be absent is an \<open>option\<close> (\<open>None\<close> is \<open>undefined\<close>). A thrown
  exception is the \<open>Inl\<close> branch of a sum type.
\<close>

datatype js_error = TypeError | Error string

text \<open>Truthiness of an optional number and of an optional string, and \<open>a || d\<close>.\<close>

definition truthy_num :: "real option \<Rightarrow> bool" where
  "truthy_num a = (case a of None \<Rightarrow> False | Some x \<Rightarrow> x \<noteq> 0)"

definition truthy_str :: "string option \<Rightarrow> bool" where
  "truthy_str a = (case a of None \<Rightarrow> False | Some s \<Rightarrow> s \<noteq> [])"

definition num_or :: "real option \<Rightarrow> real \<Rightarrow> real" where
  "num_or a d = (case a of None \<Rightarrow> d | Some x \<Rightarrow> if x = 0 then d else x)"

definition str_or :: "string option \<Rightarrow> string \<Rightarrow> string" where
  "str_or a d = (case a of None \<Rightarrow> d | Some s \<Rightarrow> if s = [] then d else s)"

section \<open>Double precision arithmetic\<close>

text \<open>
  The numbers of the program are IEEE 754 doubles: the reals \<open>m * 2^e\<close> with an integer
  \<open>m\<close> of magnitude below \<open>2^53\<close> and \<open>e\<close> not below \<open>-1074\<close>. The sum, difference and
  quotient of two doubles is the exact result rounded to the nearest double, a tie going
  to the even significand. The unit of the rounding is \<open>2^e\<close> for the \<open>e\<close> that puts the
  significand between \<open>2^52\<close> and \<open>2^53\<close>, and \<open>2^-1074\<close> for the subnormal numbers.
  The miles and ratings of a race are far from the largest double, and a result beyond it
  (\<open>Infinity\<close>) is not modelled; no quotient of the program has a zero divisor, since
  every group and every statistic has a member.
\<close>

definition pow2 :: "int \<Rightarrow> real" where
  "pow2 k = (if 0 \<le> k then 2 ^ nat k else 1 / 2 ^ nat (- k))"

definition exponent64 :: "real \<Rightarrow> int" where
  "exponent64 x = max (\<lfloor>log 2 \<bar>x\<bar>\<rfloor> - 52) (- 1074)"

definition roundHalfEven :: "real \<Rightarrow> int" where
  "roundHalfEven y =
     (let f = \<lfloor>y\<rfloor>
      in if y - of_int f < 1 / 2 then f
         else if 1 / 2 < y - of_int f then f + 1
         else if even f then f else f + 1)"

definition round64 :: "real \<Rightarrow> real" where
  "round64 x =
     (if x = 0 then 0
      else of_int (roundHalfEven (x / pow2 (exponent64 x))) * pow2 (exponent64 x))"

text \<open>The operators \<open>+\<close>, \<open>-\<close> and \<open>/\<close> on numbers.\<close>

definition dadd :: "real \<Rightarrow> real \<Rightarrow> real" where
  "dadd a b = round64 (a + b)"

definition dsub :: "real \<Rightarrow> real \<Rightarrow> real" where
  "dsub a b = round64 (a - b)"

definition ddiv :: "real \<Rightarrow> real \<Rightarrow> real" where
  "ddiv a b = round64 (a / b)"

section \<open>Data model\<close>

record rest_period =
  mile :: "real option"
  start_mile :: "real option"
  nearby_aid_station :: "string option"
  confidence :: "string option"
  pace_during :: "real option"
  actual_pace :: "real option"

text \<open>
  The object \<open>{...rest, runnerId, runnerName}\<close> pushed onto \<open>allRunnerRestPeriods\<close>.
\<close>

record runner_rest =
  rest :: rest_period
  runnerId :: nat
  runnerName :: string

record runner =
  runner_id :: nat
  first_name :: string
  last_name :: string

text \<open>\<open>selectedRunners\<close> is \<open>None\<close> when the property is undefined.\<close>

record runners =
  allRunners :: "runner list"
  selectedRunners :: "nat list option"

record fatigue_info =
  average_fatigue :: "real option"
  peak_fatigue_mile :: "real option"

record segment =
  segment_name :: string
  difficulty_rating :: "real option"
  performance_score :: "real option"

record course_info =
  strongest_terrain :: "string option"
  elevation_tolerance :: "string option"
  segment_analysis :: "segment list option"

text \<open>
  \<open>analysis.rest_periods\<close> is either a bare array of rest periods or an object that
  may carry the array under its own \<open>rest_periods\<close> key.
\<close>

datatype rest_data = RestArray "rest_period list" | RestObject "rest_period list option"

record analysis =
  fatigue_analysis :: "fatigue_info option"
  course_analysis :: "course_info option"
  rest_periods :: "rest_data option"

text \<open>
  \<open>this.analyses\<close> is an object keyed by runner id: an association list read with
  \<open>map_of\<close>.
\<close>

type_synonym analyses = "(nat \<times> analysis) list"

section \<open>Rest periods: collection\<close>

text \<open>\<open>rest.mile || rest.start_mile\<close>, the filter of line 1602.\<close>

definition hasLocation :: "rest_period \<Rightarrow> bool" where
  "hasLocation r = (truthy_num (mile r) \<or> truthy_num (start_mile r))"

text \<open>\<open>rest.mile || rest.start_mile || 0\<close>.\<close>

definition resolvedMile :: "rest_period \<Rightarrow> real" where
  "resolvedMile r = num_or (mile r) (num_or (start_mile r) 0)"

definition restMile :: "runner_rest \<Rightarrow> real" where
  "restMile r = resolvedMile (rest r)"

text \<open>
  \<open>analysis?.rest_periods?.rest_periods || analysis?.rest_periods || []\<close>. The result
  \<open>None\<close> stands for an object that is not an array (it has no \<open>filter\<close> method).
\<close>

definition allRestPeriods :: "analysis option \<Rightarrow> rest_period list option" where
  "allRestPeriods a =
     (case a of
        None \<Rightarrow> Some []
      | Some an \<Rightarrow>
          (case rest_periods an of
             None \<Rightarrow> Some []
           | Some (RestArray xs) \<Rightarrow> Some xs
           | Some (RestObject (Some xs)) \<Rightarrow> Some xs
           | Some (RestObject None) \<Rightarrow> None))"

definition findRunner :: "runners \<Rightarrow> nat \<Rightarrow> runner option" where
  "findRunner rs rid = find (\<lambda>r. runner_id r = rid) (allRunners rs)"

definition tagRest :: "nat \<Rightarrow> runner \<Rightarrow> rest_period \<Rightarrow> runner_rest" where
  "tagRest rid r p =
     \<lparr>rest = p, runnerId = rid, runnerName = first_name r @ '' '' @ last_name r\<rparr>"

text \<open>
  One iteration of the \<open>selectedRunners.forEach\<close> of lines 1590-1620. Calling \<open>filter\<close>
  on a non-array throws, and so does reading \<open>runner.first_name\<close> of a runner that
  \<open>allRunners.find\<close> did not find, which happens only when a rest period is pushed.
\<close>

definition collectRunner :: "runners \<Rightarrow> analyses \<Rightarrow> nat \<Rightarrow> js_error + runner_rest list" where
  "collectRunner rs an rid =
     (case allRestPeriods (map_of an rid) of
        None \<Rightarrow> Inl TypeError
      | Some allRest \<Rightarrow>
          (let restPeriods = filter hasLocation allRest in
           if restPeriods = [] then Inr []
           else (case findRunner rs rid of
                   None \<Rightarrow> Inl TypeError
                 | Some r \<Rightarrow> Inr (map (tagRest rid r) restPeriods))))"

fun collectRestPeriods :: "runners \<Rightarrow> analyses \<Rightarrow> nat list \<Rightarrow> js_error + runner_rest list" where
  "collectRestPeriods rs an [] = Inr []"
| "collectRestPeriods rs an (rid # rids) =
     (case collectRunner rs an rid of
        Inl e \<Rightarrow> Inl e
      | Inr xs \<Rightarrow>
          (case collectRestPeriods rs an rids of
             Inl e \<Rightarrow> Inl e
           | Inr ys \<Rightarrow> Inr (xs @ ys)))"

section \<open>Rest periods: clustering\<close>

definition MILE_VARIANCE_THRESHOLD :: real where
  "MILE_VARIANCE_THRESHOLD = 5"

text \<open>
  \<open>Array.prototype.sort\<close> is stable, and the comparator \<open>aMile - bMile\<close> orders by the
  resolved mile, the difference of two doubles having the sign of the exact difference:
  the stable insertion sort \<open>sort_key\<close>.
\<close>

definition sortRestPeriods :: "runner_rest list \<Rightarrow> runner_rest list" where
  "sortRestPeriods xs = sort_key restMile xs"

definition aidStationOf :: "runner_rest \<Rightarrow> string" where
  "aidStationOf r = str_or (nearby_aid_station (rest r)) ''Unknown''"

text \<open>\<open>group.reduce((sum, r) => sum + (r.mile || r.start_mile || 0), 0) / group.length\<close>.\<close>

definition avgMile :: "runner_rest list \<Rightarrow> real" where
  "avgMile g = ddiv (foldl dadd 0 (map restMile g)) (real (length g))"

text \<open>
  The test of line 1645. A group is created as a singleton and only ever grows, so
  \<open>group[0]\<close> exists (lemma \<open>groupRestPeriods_nonempty\<close> below); the empty case is
  unreachable.
\<close>

definition fitsGroup :: "runner_rest \<Rightarrow> runner_rest list \<Rightarrow> bool" where
  "fitsGroup r g =
     (case g of
        [] \<Rightarrow> False
      | g0 # _ \<Rightarrow>
          aidStationOf r = aidStationOf g0 \<and>
          \<bar>dsub (restMile r) (avgMile g)\<bar> \<le> MILE_VARIANCE_THRESHOLD)"

text \<open>The \<open>for (let group of restGroups)\<close> scan with its \<open>break\<close>.\<close>

fun addToGroup :: "runner_rest \<Rightarrow> runner_rest list list \<Rightarrow> runner_rest list list option" where
  "addToGroup r [] = None"
| "addToGroup r (g # gs) =
     (if fitsGroup r g then Some ((g @ [r]) # gs)
      else map_option ((#) g) (addToGroup r gs))"

definition placeRest :: "runner_rest list list \<Rightarrow> runner_rest \<Rightarrow> runner_rest list list" where
  "placeRest groups r =
     (case addToGroup r groups of
        Some groups' \<Rightarrow> groups'
      | None \<Rightarrow> groups @ [[r]])"

definition groupRestPeriods :: "runner_rest list \<Rightarrow> runner_rest list list" where
  "groupRestPeriods xs = foldl placeRest [] xs"

definition sortRestGroups :: "runner_rest list list \<Rightarrow> runner_rest list list" where
  "sortRestGroups gs = sort_key avgMile gs"

text \<open>Lines 1589-1663: collect, sort by mile, group, sort the groups.\<close>

definition restGroups :: "runners \<Rightarrow> analyses \<Rightarrow> nat list \<Rightarrow> js_error + runner_rest list list" where
  "restGroups rs an sel =
     (case collectRestPeriods rs an sel of
        Inl e \<Rightarrow> Inl e
      | Inr allRunnerRestPeriods \<Rightarrow>
          Inr (sortRestGroups (groupRestPeriods (sortRestPeriods allRunnerRestPeriods))))"

section \<open>Rest periods: selection\<close>

definition getConfidenceScore :: "string option \<Rightarrow> nat" where
  "getConfidenceScore conf =
     (if conf = Some ''high'' then 3
      else if conf = Some ''medium'' then 2
      else if conf = Some ''low'' then 1
      else 0)"

definition restPace :: "runner_rest \<Rightarrow> real" where
  "restPace r = num_or (pace_during (rest r)) (num_or (actual_pace (rest r)) 0)"

text \<open>The reducer of lines 1772-1800, with the group's mean mile as a parameter.\<close>

definition betterRest :: "real \<Rightarrow> runner_rest \<Rightarrow> runner_rest \<Rightarrow> runner_rest" where
  "betterRest avg best current =
     (let bestConf = getConfidenceScore (confidence (rest best));
          currentConf = getConfidenceScore (confidence (rest current))
      in if currentConf > bestConf then current
         else if bestConf > currentConf then best
         else
           (let bestPace = restPace best; currentPace = restPace current
            in if currentPace > bestPace then current
               else if bestPace > currentPace then best
               else
                 (let bestDiff = \<bar>dsub (restMile best) avg\<bar>;
                      currentDiff = \<bar>dsub (restMile current) avg\<bar>
                  in if currentDiff < bestDiff then current else best)))"

text \<open>
  \<open>runnerRests.length > 0 ? runnerRests.reduce(...) : null\<close>: a \<open>reduce\<close> without an
  initial value starts from the first element.
\<close>

definition bestRest :: "real \<Rightarrow> runner_rest list \<Rightarrow> runner_rest option" where
  "bestRest avg runnerRests =
     (case runnerRests of
        [] \<Rightarrow> None
      | r # others \<Rightarrow> Some (foldl (betterRest avg) r others))"

definition runnerRestsOf :: "runner_rest list \<Rightarrow> nat \<Rightarrow> runner_rest list" where
  "runnerRestsOf g rid = filter (\<lambda>r. runnerId r = rid) g"

text \<open>
  The two kinds of card of a row: \<open>createRestCard\<close> renders a rest period,
  \<open>createPlaceholderCard\<close> the group's mean mile and aid station name.
\<close>

datatype card = RestCard runner_rest | PlaceholderCard real string

text \<open>\<open>group.find(r => r.nearby_aid_station)?.nearby_aid_station || ''\<close>.\<close>

definition groupAidStationName :: "runner_rest list \<Rightarrow> string" where
  "groupAidStationName g =
     (case find (\<lambda>r. truthy_str (nearby_aid_station (rest r))) g of
        None \<Rightarrow> []
      | Some r \<Rightarrow> str_or (nearby_aid_station (rest r)) [])"

definition runnerCard :: "runner_rest list \<Rightarrow> nat \<Rightarrow> card" where
  "runnerCard g rid =
     (case bestRest (avgMile g) (runnerRestsOf g rid) of
        Some runnerRest \<Rightarrow> RestCard runnerRest
      | None \<Rightarrow> PlaceholderCard (avgMile g) (groupAidStationName g))"

definition groupRow :: "nat list \<Rightarrow> runner_rest list \<Rightarrow> card list" where
  "groupRow sel g = map (runnerCard g) sel"

text \<open>
  What \<open>#updateRestPeriodsListMultiRunner\<close> puts into the container: one of three
  messages, or the rows of the first three groups followed by the hidden rows of the
  others. The header row reads \<open>runner.first_name\<close> of every selected runner and throws
  when one is not in \<open>allRunners\<close>.
\<close>

datatype rest_view =
  NoAnalysisData
  | NoRunnersSelected
  | NoRestData
  | RestRows "card list list" "card list list"

definition updateRestPeriodsListMultiRunner :: "runners \<Rightarrow> analyses \<Rightarrow> js_error + rest_view" where
  "updateRestPeriodsListMultiRunner rs an =
     (if an = [] then Inr NoAnalysisData
      else
        (case selectedRunners rs of
           None \<Rightarrow> Inr NoRunnersSelected
         | Some sel \<Rightarrow>
             if sel = [] then Inr NoRunnersSelected
             else
               (case restGroups rs an sel of
                  Inl e \<Rightarrow> Inl e
                | Inr groups \<Rightarrow>
                    if \<exists>rid \<in> set sel. findRunner rs rid = None then Inl TypeError
                    else if groups = [] then Inr NoRestData
                    else Inr (RestRows (map (groupRow sel) (take 3 groups))
                                       (map (groupRow sel) (drop 3 groups))))))"

section \<open>Input validation\<close>






section \<open>The summary table\<close>

text \<open>
  A cell of the table: a number printed with two decimals (\<open>toFixed(2)\<close>), a number
  printed as it is, or a text.
\<close>

datatype table_cell = Decimals2 real | Number real | Text string

record summary_row =
  avgFatigue :: table_cell
  peakMile :: table_cell
  restCount :: nat
  strongestTerrain :: string
  elevationTolerance :: string

datatype table_row = NotAvailable nat | SummaryRow string summary_row

text \<open>\<open>a || d\<close> for an optional length.\<close>

definition length_or :: "nat option \<Rightarrow> nat \<Rightarrow> nat" where
  "length_or a d = (case a of None \<Rightarrow> d | Some n \<Rightarrow> if n = 0 then d else n)"

text \<open>\<open>analysis.rest_periods?.rest_periods?.length\<close> and \<open>analysis.rest_periods?.length\<close>.\<close>

definition nestedLength :: "rest_data option \<Rightarrow> nat option" where
  "nestedLength d =
     (case d of Some (RestObject (Some xs)) \<Rightarrow> Some (length xs) | _ \<Rightarrow> None)"

definition flatLength :: "rest_data option \<Rightarrow> nat option" where
  "flatLength d = (case d of Some (RestArray xs) \<Rightarrow> Some (length xs) | _ \<Rightarrow> None)"

text \<open>
  Lines 1093-1097. \<open>toFixed\<close> returns a non-empty string for every number, so the first
  cell is \<open>N/A\<close> only when \<open>average_fatigue\<close> is absent.
\<close>

definition summaryOf :: "analysis \<Rightarrow> summary_row" where
  "summaryOf a =
     \<lparr>avgFatigue =
        (case fatigue_analysis a of
           None \<Rightarrow> Text ''N/A''
         | Some f \<Rightarrow> (case average_fatigue f of None \<Rightarrow> Text ''N/A'' | Some x \<Rightarrow> Decimals2 x)),
      peakMile =
        (case fatigue_analysis a of
           None \<Rightarrow> Text ''N/A''
         | Some f \<Rightarrow>
             (case peak_fatigue_mile f of
                None \<Rightarrow> Text ''N/A''
              | Some x \<Rightarrow> if x = 0 then Text ''N/A'' else Number x)),
      restCount =
        length_or (nestedLength (rest_periods a)) (length_or (flatLength (rest_periods a)) 0),
      strongestTerrain =
        (case course_analysis a of
           None \<Rightarrow> ''Unknown''
         | Some c \<Rightarrow> str_or (strongest_terrain c) ''Unknown''),
      elevationTolerance =
        (case course_analysis a of
           None \<Rightarrow> ''Unknown''
         | Some c \<Rightarrow> str_or (elevation_tolerance c) ''Unknown'')\<rparr>"

text \<open>The callback of \<open>selectedRunners.map\<close>, lines 1080-1109.\<close>

definition runnerTableRow :: "runners \<Rightarrow> analyses \<Rightarrow> nat \<Rightarrow> table_row" where
  "runnerTableRow rs an rid =
     (case findRunner rs rid of
        None \<Rightarrow> NotAvailable rid
      | Some r \<Rightarrow>
          (case map_of an rid of
             None \<Rightarrow> NotAvailable rid
           | Some a \<Rightarrow> SummaryRow (first_name r @ '' '' @ last_name r) (summaryOf a)))"

text \<open>
  \<open>#updateMultiRunnerTable\<close>, for a page that has the table body. Only calling \<open>map\<close> on
  an undefined \<open>selectedRunners\<close> throws.
\<close>

definition updateMultiRunnerTable :: "runners \<Rightarrow> analyses \<Rightarrow> js_error + table_row list" where
  "updateMultiRunnerTable rs an =
     (case selectedRunners rs of
        None \<Rightarrow> Inl TypeError
      | Some sel \<Rightarrow> Inr (map (runnerTableRow rs an) sel))"

section \<open>Critical segments\<close>

record segment_perf =
  name :: string
  difficulty :: real
  performance :: real
  perf_runnerId :: nat

record segment_stats =
  difficulties :: "real list"
  performances :: "real list"
  count_n :: nat

text \<open>
  An element of \<open>criticalSegments\<close>; \<open>seg_name\<close> and \<open>seg_count\<close> are the properties
  \<open>name\<close> and \<open>count\<close> of the source.
\<close>

record critical_segment =
  seg_name :: string
  avgDifficulty :: real
  avgPerformance :: real
  seg_count :: nat

text \<open>\<open>analysis?.course_analysis?.segment_analysis\<close>, with no segments when it is absent.\<close>

definition runnerSegments :: "analyses \<Rightarrow> nat \<Rightarrow> segment list" where
  "runnerSegments an rid =
     (case map_of an rid of
        None \<Rightarrow> []
      | Some a \<Rightarrow>
          (case course_analysis a of
             None \<Rightarrow> []
           | Some c \<Rightarrow> (case segment_analysis c of None \<Rightarrow> [] | Some segs \<Rightarrow> segs)))"

definition toPerformance :: "nat \<Rightarrow> segment \<Rightarrow> segment_perf" where
  "toPerformance rid s =
     \<lparr>name = segment_name s,
      difficulty = num_or (difficulty_rating s) 0,
      performance = num_or (performance_score s) 0,
      perf_runnerId = rid\<rparr>"

text \<open>Lines 1931-1945.\<close>

definition segmentPerformances :: "analyses \<Rightarrow> nat list \<Rightarrow> segment_perf list" where
  "segmentPerformances an sel =
     concat (map (\<lambda>rid. map (toPerformance rid) (runnerSegments an rid)) sel)"

text \<open>
  \<open>segmentStats\<close> is a plain object used as a dictionary: its own properties are kept
  in the order of their creation. Reading a key that is not an own property finds the
  properties that every object inherits from \<open>Object.prototype\<close>, which are truthy.
\<close>

definition objectPrototypeKeys :: "string list" where
  "objectPrototypeKeys =
     [''constructor'', ''hasOwnProperty'', ''isPrototypeOf'', ''propertyIsEnumerable'',
      ''toLocaleString'', ''toString'', ''valueOf'', ''__proto__'', ''__defineGetter__'',
      ''__defineSetter__'', ''__lookupGetter__'', ''__lookupSetter__'']"

definition pushPerformance :: "segment_perf \<Rightarrow> segment_stats \<Rightarrow> segment_stats" where
  "pushPerformance p s =
     \<lparr>difficulties = difficulties s @ [difficulty p],
      performances = performances s @ [performance p],
      count_n = count_n s + 1\<rparr>"

text \<open>
  The body of the \<open>forEach\<close> of lines 1949-1956. For an inherited key the entry is not
  created, and \<open>push\<close> is called on the undefined \<open>difficulties\<close> of the inherited value.
\<close>

definition addPerformance ::
  "segment_perf \<Rightarrow> (string \<times> segment_stats) list \<Rightarrow> js_error + (string \<times> segment_stats) list" where
  "addPerformance p stats =
     (let stats' =
        (if map_of stats (name p) = None \<and> name p \<notin> set objectPrototypeKeys
         then stats @ [(name p, \<lparr>difficulties = [], performances = [], count_n = 0\<rparr>)]
         else stats)
      in if map_of stats' (name p) = None then Inl TypeError
         else Inr (map (\<lambda>(k, s). if k = name p then (k, pushPerformance p s) else (k, s)) stats'))"

fun collectStats ::
  "(string \<times> segment_stats) list \<Rightarrow> segment_perf list \<Rightarrow> js_error + (string \<times> segment_stats) list" where
  "collectStats stats [] = Inr stats"
| "collectStats stats (p # ps) =
     (case addPerformance p stats of
        Inl e \<Rightarrow> Inl e
      | Inr stats' \<Rightarrow> collectStats stats' ps)"

text \<open>
  The order of \<open>Object.entries\<close>: the keys that are array indices (the decimal numerals
  of the integers below \<open>2^32 - 1\<close>) come first, in ascending numeric order, and the other
  keys follow in the order of their creation.
\<close>

definition digitValue :: "char \<Rightarrow> nat" where
  "digitValue c = of_char c - 48"

definition arrayIndexValue :: "string \<Rightarrow> nat" where
  "arrayIndexValue s = foldl (\<lambda>n c. 10 * n + digitValue c) 0 s"

definition isArrayIndex :: "string \<Rightarrow> bool" where
  "isArrayIndex s =
     (s \<noteq> [] \<and> (\<forall>c \<in> set s. c \<in> set ''0123456789'') \<and>
      (s = ''0'' \<or> hd s \<noteq> CHR ''0'') \<and> arrayIndexValue s < 4294967295)"

definition objectEntries :: "(string \<times> 'a) list \<Rightarrow> (string \<times> 'a) list" where
  "objectEntries props =
     sort_key (\<lambda>e. arrayIndexValue (fst e)) (filter (\<lambda>e. isArrayIndex (fst e)) props) @
     filter (\<lambda>e. \<not> isArrayIndex (fst e)) props"

definition toCritical :: "string \<times> segment_stats \<Rightarrow> critical_segment" where
  "toCritical e =
     \<lparr>seg_name = fst e,
      avgDifficulty = ddiv (foldl dadd 0 (difficulties (snd e))) (real (count_n (snd e))),
      avgPerformance = ddiv (foldl dadd 0 (performances (snd e))) (real (count_n (snd e))),
      seg_count = count_n (snd e)\<rparr>"

text \<open>The mapped entries of lines 1959-1965, before they are sorted.\<close>

definition segmentSummaries :: "analyses \<Rightarrow> nat list \<Rightarrow> js_error + critical_segment list" where
  "segmentSummaries an sel =
     (case collectStats [] (segmentPerformances an sel) of
        Inl e \<Rightarrow> Inl e
      | Inr segmentStats \<Rightarrow> Inr (map toCritical (objectEntries segmentStats)))"

text \<open>
  \<open>stats.difficulties.reduce((a, b) => a + b, 0) / stats.count\<close> is the mean above. The
  comparator \<open>b.avgDifficulty - a.avgDifficulty\<close> of the stable sort orders by descending
  mean difficulty; \<open>slice(0, 5)\<close> keeps the first five.
\<close>

definition criticalSegments :: "analyses \<Rightarrow> nat list \<Rightarrow> js_error + critical_segment list" where
  "criticalSegments an sel =
     (case segmentSummaries an sel of
        Inl e \<Rightarrow> Inl e
      | Inr summaries \<Rightarrow> Inr (take 5 (sort_key (\<lambda>c. - avgDifficulty c) summaries)))"

section \<open>Notions used in the statements and proofs\<close>

text \<open>
  The rest periods of a runner as the collection reads them, with none for rest data
  that is not an array.
\<close>

definition restPeriodsOf :: "analyses \<Rightarrow> nat \<Rightarrow> rest_period list" where
  "restPeriodsOf an rid = (case allRestPeriods (map_of an rid) of None \<Rightarrow> [] | Some xs \<Rightarrow> xs)"


text \<open>
  The documented order of the selector, written from the specification: \<open>a\<close> is
  preferred over \<open>b\<close> when it has the higher confidence tier, or the same tier and the
  higher rest pace, or the same tier and pace and the smaller distance from the mean
  mile of the cluster, the distance being the difference that the program computes.
\<close>

definition preferred :: "real \<Rightarrow> runner_rest \<Rightarrow> runner_rest \<Rightarrow> bool" where
  "preferred avg a b =
     (getConfidenceScore (confidence (rest a)) > getConfidenceScore (confidence (rest b)) \<or>
      getConfidenceScore (confidence (rest a)) = getConfidenceScore (confidence (rest b)) \<and>
      (restPace a > restPace b \<or>
       restPace a = restPace b \<and>
       \<bar>dsub (restMile a) avg\<bar> < \<bar>dsub (restMile b) avg\<bar>))"

text \<open>The three attributes that the order compares.\<close>

definition preferenceKey :: "real \<Rightarrow> runner_rest \<Rightarrow> nat \<times> real \<times> real" where
  "preferenceKey avg a =
     (getConfidenceScore (confidence (rest a)), restPace a, \<bar>dsub (restMile a) avg\<bar>)"

text \<open>
  The distinct segment names in the order in which they are first met, and the selected
  runners that have a segment of a name.
\<close>

definition firstEncountered :: "'a list \<Rightarrow> 'a list" where
  "firstEncountered xs = rev (remdups (rev xs))"

definition segmentNames :: "analyses \<Rightarrow> nat list \<Rightarrow> string list" where
  "segmentNames an sel = firstEncountered (map name (segmentPerformances an sel))"

definition contributingRunners :: "analyses \<Rightarrow> nat list \<Rightarrow> string \<Rightarrow> nat list" where
  "contributingRunners an sel n =
     filter (\<lambda>rid. n \<in> set (map segment_name (runnerSegments an rid))) sel"

text \<open>The statistics that the loop has collected for a name after a list of performances.\<close>

definition statsOf :: "segment_perf list \<Rightarrow> string \<Rightarrow> segment_stats" where
  "statsOf ps n =
     \<lparr>difficulties = map difficulty (filter (\<lambda>p. name p = n) ps),
      performances = map performance (filter (\<lambda>p. name p = n) ps),
      count_n = length (filter (\<lambda>p. name p = n) ps)\<rparr>"

definition grouped :: "segment_perf list \<Rightarrow> (string \<times> segment_stats) list" where
  "grouped ps = map (\<lambda>n. (n, statsOf ps n)) (firstEncountered (map name ps))"

section \<open>Concrete inputs\<close>

text \<open>
  Rest periods at one aid station, at miles 77.25 and 79, and one without a station at a
  \<open>start_mile\<close> of 80.
\<close>

definition periodX :: rest_period where
  "periodX = \<lparr>mile = Some (309/4), start_mile = None, nearby_aid_station = Some ''Whiskey Row'',
      confidence = Some ''high'', pace_during = Some 25, actual_pace = None\<rparr>"

definition periodY :: rest_period where
  "periodY = \<lparr>mile = Some 79, start_mile = None, nearby_aid_station = Some ''Whiskey Row'',
      confidence = Some ''medium'', pace_during = None, actual_pace = None\<rparr>"

definition periodU :: rest_period where
  "periodU = \<lparr>mile = None, start_mile = Some 80, nearby_aid_station = None,
      confidence = None, pace_during = None, actual_pace = None\<rparr>"

text \<open>A rest period at mile 0 without \<open>start_mile\<close>, and one at mile 0 that started at mile 78.\<close>

definition periodZero :: rest_period where
  "periodZero = \<lparr>mile = Some 0, start_mile = None, nearby_aid_station = Some ''Start'',
      confidence = Some ''high'', pace_during = Some 30, actual_pace = None\<rparr>"

definition periodV :: rest_period where
  "periodV = \<lparr>mile = Some 0, start_mile = Some 78, nearby_aid_station = Some ''Crown King'',
      confidence = Some ''low'', pace_during = None, actual_pace = None\<rparr>"

definition restX :: runner_rest where
  "restX = \<lparr>rest = periodX, runnerId = 11, runnerName = ''X Runner''\<rparr>"

definition restY :: runner_rest where
  "restY = \<lparr>rest = periodY, runnerId = 12, runnerName = ''Y Runner''\<rparr>"

definition restU :: runner_rest where
  "restU = \<lparr>rest = periodU, runnerId = 12, runnerName = ''Y Runner''\<rparr>"

definition restV :: runner_rest where
  "restV = \<lparr>rest = periodV, runnerId = 11, runnerName = ''X Runner''\<rparr>"

text \<open>
  The analyses of three runners; runner 13 has no rest data. In the second collection
  runner 11 also has the rest period that started at mile 78.
\<close>

definition runners0 :: runners where
  "runners0 = \<lparr>allRunners =
       [\<lparr>runner_id = 11, first_name = ''X'', last_name = ''Runner''\<rparr>,
        \<lparr>runner_id = 12, first_name = ''Y'', last_name = ''Runner''\<rparr>,
        \<lparr>runner_id = 13, first_name = ''W'', last_name = ''Runner''\<rparr>],
     selectedRunners = Some [11, 12, 13]\<rparr>"

definition analyses0 :: analyses where
  "analyses0 =
     [(11, \<lparr>fatigue_analysis = None, course_analysis = None,
           rest_periods = Some (RestArray [periodZero, periodX])\<rparr>),
      (12, \<lparr>fatigue_analysis = None, course_analysis = None,
           rest_periods = Some (RestObject (Some [periodU, periodY]))\<rparr>),
      (13, \<lparr>fatigue_analysis = None, course_analysis = None, rest_periods = None\<rparr>)]"


text \<open>
  A rest period of a runner at an aid station, with a mile, a confidence and the two
  paces.
\<close>

definition restAt ::
  "nat \<Rightarrow> string \<Rightarrow> real \<Rightarrow> string option \<Rightarrow> real option \<Rightarrow> real option \<Rightarrow> runner_rest" where
  "restAt rid station m conf pace actual =
     \<lparr>rest = \<lparr>mile = Some m, start_mile = None, nearby_aid_station = Some station,
        confidence = conf, pace_during = pace, actual_pace = actual\<rparr>,
      runnerId = rid, runnerName = ''Z Runner''\<rparr>"

text \<open>
  Runner 14 rests at one aid station with low and with high confidence, and also without
  a confidence and with only an \<open>actual_pace\<close>.
\<close>

definition restLow :: runner_rest where
  "restLow = restAt 14 ''Crown King'' 50 (Some ''low'') (Some 40) None"

definition restHigh :: runner_rest where
  "restHigh = restAt 14 ''Crown King'' 53 (Some ''high'') (Some 20) None"



text \<open>
  Runner 14 rests at miles 10 and 14 of one aid station, with the same confidence and
  no pace: the mean mile of the two is 12, at distance 2 from both.
\<close>

definition tieA :: runner_rest where
  "tieA = restAt 14 ''Camp Wamatochick'' 10 (Some ''medium'') None None"

definition tieB :: runner_rest where
  "tieB = restAt 14 ''Camp Wamatochick'' 14 (Some ''medium'') None None"















text \<open>An analysis without any section.\<close>

definition bareAnalysis :: analysis where
  "bareAnalysis = \<lparr>fatigue_analysis = None, course_analysis = None, rest_periods = None\<rparr>"

text \<open>The analysis of a runner with the given segments: name, difficulty, performance.\<close>

definition courseOf :: "(string \<times> real \<times> real) list \<Rightarrow> analysis" where
  "courseOf segs =
     \<lparr>fatigue_analysis = None,
      course_analysis = Some
        \<lparr>strongest_terrain = None, elevation_tolerance = None,
         segment_analysis = Some
           (map (\<lambda>(n, d, p). \<lparr>segment_name = n, difficulty_rating = Some d,
                              performance_score = Some p\<rparr>) segs)\<rparr>,
      rest_periods = None\<rparr>"

text \<open>
  Two runners on one course: the segment from Crown King to Whiskey Row is rated 3.5
  and 4.5, the segment before it 2.5 and 3.5.
\<close>

definition analysesD :: analyses where
  "analysesD =
     [(21, courseOf [(''Start to Crown King'', 5/2, 3/4),
                     (''Crown King to Whiskey Row'', 7/2, 7/8)]),
      (22, courseOf [(''Start to Crown King'', 7/2, 1/4),
                     (''Crown King to Whiskey Row'', 9/2, 5/8)])]"

text \<open>
  Two runners whose segments all have difficulty 3; the analysis of runner 32 lacks the
  first segment.
\<close>

definition analysesT :: analyses where
  "analysesT =
     [(31, courseOf [(''Start to Crown King'', 3, 1/2),
                     (''Crown King to Whiskey Row'', 3, 1/2)]),
      (32, courseOf [(''Crown King to Whiskey Row'', 3, 1/2)])]"

text \<open>
  The doubles that the decimal numerals 0.1, 0.2 and 0.3 denote, and three runners who
  rate one segment 0.3, 0.2 and 0.1 and the other 0.1, 0.2 and 0.3.
\<close>

definition d0_1 :: real where "d0_1 = 3602879701896397 / 2 ^ 55"
definition d0_2 :: real where "d0_2 = 3602879701896397 / 2 ^ 54"
definition d0_3 :: real where "d0_3 = 5404319552844595 / 2 ^ 54"

definition analysesR :: analyses where
  "analysesR =
     [(51, courseOf [(''Climb'', d0_3, 1/2), (''Descent'', d0_1, 1/2)]),
      (52, courseOf [(''Climb'', d0_2, 1/2), (''Descent'', d0_2, 1/2)]),
      (53, courseOf [(''Climb'', d0_1, 1/2), (''Descent'', d0_3, 1/2)])]"

text \<open>A runner whose segments are named \<open>Start\<close>, \<open>2\<close> and \<open>1\<close>, all of difficulty 3.\<close>

definition analysesI :: analyses where
  "analysesI = [(41, courseOf [(''Start'', 3, 1/2), (''2'', 3, 1/2), (''1'', 3, 1/2)])]"

text \<open>A runner with a segment named \<open>constructor\<close>.\<close>

definition analysesK :: analyses where
  "analysesK = [(42, courseOf [(''constructor'', 3, 1/2)])]"


text \<open>A runner on a course of loops, whose segment \<open>Loop\<close> is listed twice.\<close>

definition analysesL :: analyses where
  "analysesL = [(43, courseOf [(''Loop'', 2, 1/2), (''Loop'', 4, 1/2)])]"

section \<open>Properties of the double precision arithmetic\<close>

lemma pow2_powr: "pow2 k = 2 powr of_int k"
proof (cases "0 \<le> k")
  case True
  then have "2 powr of_int k = (2::real) powr real (nat k)" by simp
  also have "\<dots> = 2 ^ nat k" by (simp add: powr_realpow)
  finally show ?thesis using True by (simp add: pow2_def)
next
  case False
  then have "(2::real) powr of_int k = 2 powr (- real (nat (- k)))" by simp
  also have "\<dots> = 1 / 2 powr real (nat (- k))" by (simp add: powr_minus_divide)
  also have "\<dots> = 1 / 2 ^ nat (- k)" by (simp add: powr_realpow)
  finally show ?thesis using False by (simp add: pow2_def)
qed

lemma pow2_pos: "0 < pow2 k"
  by (simp add: pow2_powr)

lemma pow2_add: "pow2 (j + k) = pow2 j * pow2 k"
  by (simp add: pow2_powr powr_add)

lemma pow2_nat: "0 \<le> k \<Longrightarrow> pow2 k = of_int (2 ^ nat k)"
  by (simp add: pow2_def)

lemma floor_log2_eq:
  assumes "pow2 k \<le> x" and "x < pow2 (k + 1)"
  shows "\<lfloor>log 2 x\<rfloor> = k"
proof -
  have pos: "0 < x" using assms(1) pow2_pos [of k] by linarith
  have "of_int k \<le> log 2 x"
    using assms(1) pos by (simp add: pow2_powr le_log_iff)
  moreover have "log 2 x < of_int k + 1"
    using assms(2) pos by (simp add: pow2_powr log_less_iff)
  ultimately show ?thesis by linarith
qed

lemma exponent64_eq:
  assumes "pow2 k \<le> \<bar>x\<bar>" and "\<bar>x\<bar> < pow2 (k + 1)"
  shows "exponent64 x = max (k - 52) (- 1074)"
  by (simp add: exponent64_def floor_log2_eq [OF assms])

text \<open>
  The rounding of a number between \<open>2^k\<close> and \<open>2^(k+1)\<close>, by which the concrete sums and
  quotients below are evaluated.
\<close>

lemma round64_eval:
  assumes "pow2 k \<le> \<bar>x\<bar>" and "\<bar>x\<bar> < pow2 (k + 1)" and "- 1022 \<le> k"
  shows "round64 x = of_int (roundHalfEven (x / pow2 (k - 52))) * pow2 (k - 52)"
proof -
  have "x \<noteq> 0" using assms(1) pow2_pos [of k] by auto
  moreover have "exponent64 x = k - 52"
    using exponent64_eq [OF assms(1,2)] assms(3) by simp
  ultimately show ?thesis by (simp add: round64_def)
qed

lemma roundHalfEven_of_int: "roundHalfEven (of_int n) = n"
  by (simp add: roundHalfEven_def)

lemma exponent64_le:
  assumes "x = of_int m * pow2 e" and "m \<noteq> 0" and "\<bar>m\<bar> < 2 ^ 53" and "- 1074 \<le> e"
  shows "exponent64 x \<le> e"
proof -
  have "(of_int \<bar>m\<bar> :: real) < 2 ^ 53"
    using assms(3) by (metis of_int_less_numeral_power_cancel_iff)
  then have "(of_int \<bar>m\<bar> :: real) < pow2 53"
    by (simp add: pow2_def)
  then have "of_int \<bar>m\<bar> * pow2 e < pow2 53 * pow2 e"
    using pow2_pos [of e] by (rule mult_strict_right_mono)
  moreover have "\<bar>x\<bar> = of_int \<bar>m\<bar> * pow2 e"
    using pow2_pos [of e] by (simp add: assms(1) abs_mult)
  moreover have "pow2 53 * pow2 e = 2 powr of_int (53 + e)"
    using pow2_add [of 53 e] by (simp only: pow2_powr)
  ultimately have lt: "\<bar>x\<bar> < 2 powr of_int (53 + e)"
    by (simp only:)
  have "x \<noteq> 0" using assms(1,2) pow2_pos [of e] by auto
  then have "log 2 \<bar>x\<bar> < of_int (53 + e)"
    using lt by (simp add: log_less_iff)
  then have "\<lfloor>log 2 \<bar>x\<bar>\<rfloor> < 53 + e"
    by linarith
  then show ?thesis
    using assms(4) by (simp add: exponent64_def)
qed

text \<open>A double is its own rounding: an operation with a representable result is exact.\<close>

lemma round64_exact:
  assumes "x = of_int m * pow2 e" and "\<bar>m\<bar> < 2 ^ 53" and "- 1074 \<le> e"
  shows "round64 x = x"
proof (cases "m = 0")
  case True
  then show ?thesis by (simp add: assms(1) round64_def)
next
  case False
  define E where "E = exponent64 x"
  define P where "P = pow2 E"
  define N :: int where "N = 2 ^ nat (e - E)"
  have le: "E \<le> e"
    unfolding E_def by (rule exponent64_le [OF assms(1) False assms(2,3)])
  have P: "0 < P" by (simp add: P_def pow2_pos)
  have "pow2 e = pow2 ((e - E) + E)" by simp
  also have "\<dots> = pow2 (e - E) * P"
    unfolding P_def by (rule pow2_add)
  also have "pow2 (e - E) = of_int N"
    unfolding N_def using le by (simp add: pow2_nat)
  finally have e: "pow2 e = of_int N * P" .
  have "x / P = of_int (m * N)"
    using P by (simp add: assms(1) e)
  then have "roundHalfEven (x / P) = m * N"
    by (simp only: roundHalfEven_of_int)
  then have "of_int (roundHalfEven (x / P)) * P = of_int m * (of_int N * P)"
    by simp
  also have "\<dots> = x"
    by (simp only: assms(1) e)
  finally have "of_int (roundHalfEven (x / P)) * P = x" .
  moreover have "x \<noteq> 0"
    using False pow2_pos [of e] by (simp add: assms(1))
  ultimately show ?thesis
    by (simp add: round64_def P_def E_def)
qed

lemma dadd_commute: "dadd a b = dadd b a"
  by (simp add: dadd_def add.commute)

lemma dadd_zero: "round64 a = a \<Longrightarrow> dadd 0 a = a"
  by (simp add: dadd_def)

subsection \<open>Concrete sums, means and distances\<close>

text \<open>The means of the groups of the concrete inputs, and the distances from them.\<close>

lemma mean_X: "ddiv (dadd 0 (309 / 4)) 1 = 309 / 4"
proof -
  define v1 :: real where "v1 = 309 / 4"
  define v2 :: real where "v2 = 309 / 4"
  have s1: "dadd 0 (309 / 4) = v1"
    unfolding dadd_def
    by (subst round64_eval [of "6"]) (simp_all add: v1_def v2_def pow2_def roundHalfEven_def)
  have s2: "ddiv v1 1 = v2"
    unfolding ddiv_def
    by (subst round64_eval [of "6"]) (simp_all add: v1_def v2_def pow2_def roundHalfEven_def)
  show ?thesis
    by (simp only: s1 s2) (simp add: v2_def)
qed

lemma mean_XY: "ddiv (dadd (dadd 0 (309 / 4)) 79) 2 = 625 / 8"
proof -
  define v1 :: real where "v1 = 309 / 4"
  define v2 :: real where "v2 = 625 / 4"
  define v3 :: real where "v3 = 625 / 8"
  have s1: "dadd 0 (309 / 4) = v1"
    unfolding dadd_def
    by (subst round64_eval [of "6"]) (simp_all add: v1_def v2_def v3_def pow2_def roundHalfEven_def)
  have s2: "dadd v1 79 = v2"
    unfolding dadd_def
    by (subst round64_eval [of "7"]) (simp_all add: v1_def v2_def v3_def pow2_def roundHalfEven_def)
  have s3: "ddiv v2 2 = v3"
    unfolding ddiv_def
    by (subst round64_eval [of "6"]) (simp_all add: v1_def v2_def v3_def pow2_def roundHalfEven_def)
  show ?thesis
    by (simp only: s1 s2 s3) (simp add: v3_def)
qed

lemma mean_78: "ddiv (dadd 0 78) 1 = 78"
proof -
  define v1 :: real where "v1 = 78"
  define v2 :: real where "v2 = 78"
  have s1: "dadd 0 78 = v1"
    unfolding dadd_def
    by (subst round64_eval [of "6"]) (simp_all add: v1_def v2_def pow2_def roundHalfEven_def)
  have s2: "ddiv v1 1 = v2"
    unfolding ddiv_def
    by (subst round64_eval [of "6"]) (simp_all add: v1_def v2_def pow2_def roundHalfEven_def)
  show ?thesis
    by (simp only: s1 s2) (simp add: v2_def)
qed

lemma mean_80: "ddiv (dadd 0 80) 1 = 80"
proof -
  define v1 :: real where "v1 = 80"
  define v2 :: real where "v2 = 80"
  have s1: "dadd 0 80 = v1"
    unfolding dadd_def
    by (subst round64_eval [of "6"]) (simp_all add: v1_def v2_def pow2_def roundHalfEven_def)
  have s2: "ddiv v1 1 = v2"
    unfolding ddiv_def
    by (subst round64_eval [of "6"]) (simp_all add: v1_def v2_def pow2_def roundHalfEven_def)
  show ?thesis
    by (simp only: s1 s2) (simp add: v2_def)
qed

lemma dist_Y_X: "dsub 79 (309 / 4) = 7 / 4"
proof -
  define v1 :: real where "v1 = 7 / 4"
  have s1: "dsub 79 (309 / 4) = v1"
    unfolding dsub_def
    by (subst round64_eval [of "0"]) (simp_all add: v1_def pow2_def roundHalfEven_def)
  show ?thesis
    by (simp only: s1) (simp add: v1_def)
qed

lemma dist_V_X: "dsub 78 (309 / 4) = 3 / 4"
proof -
  define v1 :: real where "v1 = 3 / 4"
  have s1: "dsub 78 (309 / 4) = v1"
    unfolding dsub_def
    by (subst round64_eval [of "- 1"]) (simp_all add: v1_def pow2_def roundHalfEven_def)
  show ?thesis
    by (simp only: s1) (simp add: v1_def)
qed

lemma mean_10: "ddiv (dadd 0 10) 1 = 10"
proof -
  define v1 :: real where "v1 = 10"
  define v2 :: real where "v2 = 10"
  have s1: "dadd 0 10 = v1"
    unfolding dadd_def
    by (subst round64_eval [of "3"]) (simp_all add: v1_def v2_def pow2_def roundHalfEven_def)
  have s2: "ddiv v1 1 = v2"
    unfolding ddiv_def
    by (subst round64_eval [of "3"]) (simp_all add: v1_def v2_def pow2_def roundHalfEven_def)
  show ?thesis
    by (simp only: s1 s2) (simp add: v2_def)
qed

lemma mean_10_14: "ddiv (dadd (dadd 0 10) 14) 2 = 12"
proof -
  define v1 :: real where "v1 = 10"
  define v2 :: real where "v2 = 24"
  define v3 :: real where "v3 = 12"
  have s1: "dadd 0 10 = v1"
    unfolding dadd_def
    by (subst round64_eval [of "3"]) (simp_all add: v1_def v2_def v3_def pow2_def roundHalfEven_def)
  have s2: "dadd v1 14 = v2"
    unfolding dadd_def
    by (subst round64_eval [of "4"]) (simp_all add: v1_def v2_def v3_def pow2_def roundHalfEven_def)
  have s3: "ddiv v2 2 = v3"
    unfolding ddiv_def
    by (subst round64_eval [of "3"]) (simp_all add: v1_def v2_def v3_def pow2_def roundHalfEven_def)
  show ?thesis
    by (simp only: s1 s2 s3) (simp add: v3_def)
qed

lemma dist_14_10: "dsub 14 10 = 4"
proof -
  define v1 :: real where "v1 = 4"
  have s1: "dsub 14 10 = v1"
    unfolding dsub_def
    by (subst round64_eval [of "2"]) (simp_all add: v1_def pow2_def roundHalfEven_def)
  show ?thesis
    by (simp only: s1) (simp add: v1_def)
qed

lemma dist_10_12: "dsub 10 12 = - 2"
proof -
  define v1 :: real where "v1 = - 2"
  have s1: "dsub 10 12 = v1"
    unfolding dsub_def
    by (subst round64_eval [of "1"]) (simp_all add: v1_def pow2_def roundHalfEven_def)
  show ?thesis
    by (simp only: s1) (simp add: v1_def)
qed

lemma dist_14_12: "dsub 14 12 = 2"
proof -
  define v1 :: real where "v1 = 2"
  have s1: "dsub 14 12 = v1"
    unfolding dsub_def
    by (subst round64_eval [of "1"]) (simp_all add: v1_def pow2_def roundHalfEven_def)
  show ?thesis
    by (simp only: s1) (simp add: v1_def)
qed










text \<open>The means of the ratings and scores of the concrete courses.\<close>

lemma mean_3: "ddiv (dadd 0 3) 1 = 3"
proof -
  define v1 :: real where "v1 = 3"
  define v2 :: real where "v2 = 3"
  have s1: "dadd 0 3 = v1"
    unfolding dadd_def
    by (subst round64_eval [of "1"]) (simp_all add: v1_def v2_def pow2_def roundHalfEven_def)
  have s2: "ddiv v1 1 = v2"
    unfolding ddiv_def
    by (subst round64_eval [of "1"]) (simp_all add: v1_def v2_def pow2_def roundHalfEven_def)
  show ?thesis
    by (simp only: s1 s2) (simp add: v2_def)
qed

lemma mean_half: "ddiv (dadd 0 (1 / 2)) 1 = 1 / 2"
proof -
  define v1 :: real where "v1 = 1 / 2"
  define v2 :: real where "v2 = 1 / 2"
  have s1: "dadd 0 (1 / 2) = v1"
    unfolding dadd_def
    by (subst round64_eval [of "- 1"]) (simp_all add: v1_def v2_def pow2_def roundHalfEven_def)
  have s2: "ddiv v1 1 = v2"
    unfolding ddiv_def
    by (subst round64_eval [of "- 1"]) (simp_all add: v1_def v2_def pow2_def roundHalfEven_def)
  show ?thesis
    by (simp only: s1 s2) (simp add: v2_def)
qed

lemma mean_3_3: "ddiv (dadd (dadd 0 3) 3) 2 = 3"
proof -
  define v1 :: real where "v1 = 3"
  define v2 :: real where "v2 = 6"
  define v3 :: real where "v3 = 3"
  have s1: "dadd 0 3 = v1"
    unfolding dadd_def
    by (subst round64_eval [of "1"]) (simp_all add: v1_def v2_def v3_def pow2_def roundHalfEven_def)
  have s2: "dadd v1 3 = v2"
    unfolding dadd_def
    by (subst round64_eval [of "2"]) (simp_all add: v1_def v2_def v3_def pow2_def roundHalfEven_def)
  have s3: "ddiv v2 2 = v3"
    unfolding ddiv_def
    by (subst round64_eval [of "1"]) (simp_all add: v1_def v2_def v3_def pow2_def roundHalfEven_def)
  show ?thesis
    by (simp only: s1 s2 s3) (simp add: v3_def)
qed

lemma mean_half_half: "ddiv (dadd (dadd 0 (1 / 2)) (1 / 2)) 2 = 1 / 2"
proof -
  define v1 :: real where "v1 = 1 / 2"
  define v2 :: real where "v2 = 1"
  define v3 :: real where "v3 = 1 / 2"
  have s1: "dadd 0 (1 / 2) = v1"
    unfolding dadd_def
    by (subst round64_eval [of "- 1"]) (simp_all add: v1_def v2_def v3_def pow2_def roundHalfEven_def)
  have s2: "dadd v1 (1 / 2) = v2"
    unfolding dadd_def
    by (subst round64_eval [of "0"]) (simp_all add: v1_def v2_def v3_def pow2_def roundHalfEven_def)
  have s3: "ddiv v2 2 = v3"
    unfolding ddiv_def
    by (subst round64_eval [of "- 1"]) (simp_all add: v1_def v2_def v3_def pow2_def roundHalfEven_def)
  show ?thesis
    by (simp only: s1 s2 s3) (simp add: v3_def)
qed

lemma mean_half_half_half: "ddiv (dadd (dadd (dadd 0 (1 / 2)) (1 / 2)) (1 / 2)) 3 = 1 / 2"
proof -
  define v1 :: real where "v1 = 1 / 2"
  define v2 :: real where "v2 = 1"
  define v3 :: real where "v3 = 3 / 2"
  define v4 :: real where "v4 = 1 / 2"
  have s1: "dadd 0 (1 / 2) = v1"
    unfolding dadd_def
    by (subst round64_eval [of "- 1"]) (simp_all add: v1_def v2_def v3_def v4_def pow2_def roundHalfEven_def)
  have s2: "dadd v1 (1 / 2) = v2"
    unfolding dadd_def
    by (subst round64_eval [of "0"]) (simp_all add: v1_def v2_def v3_def v4_def pow2_def roundHalfEven_def)
  have s3: "dadd v2 (1 / 2) = v3"
    unfolding dadd_def
    by (subst round64_eval [of "0"]) (simp_all add: v1_def v2_def v3_def v4_def pow2_def roundHalfEven_def)
  have s4: "ddiv v3 3 = v4"
    unfolding ddiv_def
    by (subst round64_eval [of "- 1"]) (simp_all add: v1_def v2_def v3_def v4_def pow2_def roundHalfEven_def)
  show ?thesis
    by (simp only: s1 s2 s3 s4) (simp add: v4_def)
qed

lemma mean_2_4: "ddiv (dadd (dadd 0 2) 4) 2 = 3"
proof -
  define v1 :: real where "v1 = 2"
  define v2 :: real where "v2 = 6"
  define v3 :: real where "v3 = 3"
  have s1: "dadd 0 2 = v1"
    unfolding dadd_def
    by (subst round64_eval [of "1"]) (simp_all add: v1_def v2_def v3_def pow2_def roundHalfEven_def)
  have s2: "dadd v1 4 = v2"
    unfolding dadd_def
    by (subst round64_eval [of "2"]) (simp_all add: v1_def v2_def v3_def pow2_def roundHalfEven_def)
  have s3: "ddiv v2 2 = v3"
    unfolding ddiv_def
    by (subst round64_eval [of "1"]) (simp_all add: v1_def v2_def v3_def pow2_def roundHalfEven_def)
  show ?thesis
    by (simp only: s1 s2 s3) (simp add: v3_def)
qed

lemma mean_D_start: "ddiv (dadd (dadd 0 (5 / 2)) (7 / 2)) 2 = 3"
proof -
  define v1 :: real where "v1 = 5 / 2"
  define v2 :: real where "v2 = 6"
  define v3 :: real where "v3 = 3"
  have s1: "dadd 0 (5 / 2) = v1"
    unfolding dadd_def
    by (subst round64_eval [of "1"]) (simp_all add: v1_def v2_def v3_def pow2_def roundHalfEven_def)
  have s2: "dadd v1 (7 / 2) = v2"
    unfolding dadd_def
    by (subst round64_eval [of "2"]) (simp_all add: v1_def v2_def v3_def pow2_def roundHalfEven_def)
  have s3: "ddiv v2 2 = v3"
    unfolding ddiv_def
    by (subst round64_eval [of "1"]) (simp_all add: v1_def v2_def v3_def pow2_def roundHalfEven_def)
  show ?thesis
    by (simp only: s1 s2 s3) (simp add: v3_def)
qed

lemma mean_D_crown: "ddiv (dadd (dadd 0 (7 / 2)) (9 / 2)) 2 = 4"
proof -
  define v1 :: real where "v1 = 7 / 2"
  define v2 :: real where "v2 = 8"
  define v3 :: real where "v3 = 4"
  have s1: "dadd 0 (7 / 2) = v1"
    unfolding dadd_def
    by (subst round64_eval [of "1"]) (simp_all add: v1_def v2_def v3_def pow2_def roundHalfEven_def)
  have s2: "dadd v1 (9 / 2) = v2"
    unfolding dadd_def
    by (subst round64_eval [of "3"]) (simp_all add: v1_def v2_def v3_def pow2_def roundHalfEven_def)
  have s3: "ddiv v2 2 = v3"
    unfolding ddiv_def
    by (subst round64_eval [of "2"]) (simp_all add: v1_def v2_def v3_def pow2_def roundHalfEven_def)
  show ?thesis
    by (simp only: s1 s2 s3) (simp add: v3_def)
qed

lemma mean_D_start_score: "ddiv (dadd (dadd 0 (3 / 4)) (1 / 4)) 2 = 1 / 2"
proof -
  define v1 :: real where "v1 = 3 / 4"
  define v2 :: real where "v2 = 1"
  define v3 :: real where "v3 = 1 / 2"
  have s1: "dadd 0 (3 / 4) = v1"
    unfolding dadd_def
    by (subst round64_eval [of "- 1"]) (simp_all add: v1_def v2_def v3_def pow2_def roundHalfEven_def)
  have s2: "dadd v1 (1 / 4) = v2"
    unfolding dadd_def
    by (subst round64_eval [of "0"]) (simp_all add: v1_def v2_def v3_def pow2_def roundHalfEven_def)
  have s3: "ddiv v2 2 = v3"
    unfolding ddiv_def
    by (subst round64_eval [of "- 1"]) (simp_all add: v1_def v2_def v3_def pow2_def roundHalfEven_def)
  show ?thesis
    by (simp only: s1 s2 s3) (simp add: v3_def)
qed

lemma mean_D_crown_score: "ddiv (dadd (dadd 0 (7 / 8)) (5 / 8)) 2 = 3 / 4"
proof -
  define v1 :: real where "v1 = 7 / 8"
  define v2 :: real where "v2 = 3 / 2"
  define v3 :: real where "v3 = 3 / 4"
  have s1: "dadd 0 (7 / 8) = v1"
    unfolding dadd_def
    by (subst round64_eval [of "- 1"]) (simp_all add: v1_def v2_def v3_def pow2_def roundHalfEven_def)
  have s2: "dadd v1 (5 / 8) = v2"
    unfolding dadd_def
    by (subst round64_eval [of "0"]) (simp_all add: v1_def v2_def v3_def pow2_def roundHalfEven_def)
  have s3: "ddiv v2 2 = v3"
    unfolding ddiv_def
    by (subst round64_eval [of "- 1"]) (simp_all add: v1_def v2_def v3_def pow2_def roundHalfEven_def)
  show ?thesis
    by (simp only: s1 s2 s3) (simp add: v3_def)
qed

lemma mean_0_3_0_2_0_1: "ddiv (dadd (dadd (dadd 0 d0_3) d0_2) d0_1) 3 = 7205759403792793 / 2 ^ 55"
proof -
  define v1 :: real where "v1 = 5404319552844595 / 2 ^ 54"
  define v2 :: real where "v2 = 1 / 2"
  define v3 :: real where "v3 = 5404319552844595 / 2 ^ 53"
  define v4 :: real where "v4 = 7205759403792793 / 2 ^ 55"
  have s1: "dadd 0 d0_3 = v1"
    unfolding dadd_def
    by (subst round64_eval [of "- 2"]) (simp_all add: v1_def v2_def v3_def v4_def d0_1_def d0_2_def d0_3_def pow2_def roundHalfEven_def)
  have s2: "dadd v1 d0_2 = v2"
    unfolding dadd_def
    by (subst round64_eval [of "- 1"]) (simp_all add: v1_def v2_def v3_def v4_def d0_1_def d0_2_def d0_3_def pow2_def roundHalfEven_def)
  have s3: "dadd v2 d0_1 = v3"
    unfolding dadd_def
    by (subst round64_eval [of "- 1"]) (simp_all add: v1_def v2_def v3_def v4_def d0_1_def d0_2_def d0_3_def pow2_def roundHalfEven_def)
  have s4: "ddiv v3 3 = v4"
    unfolding ddiv_def
    by (subst round64_eval [of "- 3"]) (simp_all add: v1_def v2_def v3_def v4_def d0_1_def d0_2_def d0_3_def pow2_def roundHalfEven_def)
  show ?thesis
    by (simp only: s1 s2 s3 s4) (simp add: v4_def)
qed

lemma mean_0_1_0_2_0_3: "ddiv (dadd (dadd (dadd 0 d0_1) d0_2) d0_3) 3 = 7205759403792795 / 2 ^ 55"
proof -
  define v1 :: real where "v1 = 3602879701896397 / 2 ^ 55"
  define v2 :: real where "v2 = 1351079888211149 / 2 ^ 52"
  define v3 :: real where "v3 = 1351079888211149 / 2 ^ 51"
  define v4 :: real where "v4 = 7205759403792795 / 2 ^ 55"
  have s1: "dadd 0 d0_1 = v1"
    unfolding dadd_def
    by (subst round64_eval [of "- 4"]) (simp_all add: v1_def v2_def v3_def v4_def d0_1_def d0_2_def d0_3_def pow2_def roundHalfEven_def)
  have s2: "dadd v1 d0_2 = v2"
    unfolding dadd_def
    by (subst round64_eval [of "- 2"]) (simp_all add: v1_def v2_def v3_def v4_def d0_1_def d0_2_def d0_3_def pow2_def roundHalfEven_def)
  have s3: "dadd v2 d0_3 = v3"
    unfolding dadd_def
    by (subst round64_eval [of "- 1"]) (simp_all add: v1_def v2_def v3_def v4_def d0_1_def d0_2_def d0_3_def pow2_def roundHalfEven_def)
  have s4: "ddiv v3 3 = v4"
    unfolding ddiv_def
    by (subst round64_eval [of "- 3"]) (simp_all add: v1_def v2_def v3_def v4_def d0_1_def d0_2_def d0_3_def pow2_def roundHalfEven_def)
  show ?thesis
    by (simp only: s1 s2 s3 s4) (simp add: v4_def)
qed

section \<open>Properties of the collection and the clustering\<close>

lemma collectRunner_Inr:
  assumes "collectRunner rs an rid = Inr xs"
  shows "map (\<lambda>x. (runnerId x, rest x)) xs = map (Pair rid) (filter hasLocation (restPeriodsOf an rid))"
  using assms
  by (auto simp: collectRunner_def restPeriodsOf_def tagRest_def Let_def comp_def
           split: option.splits if_splits)

lemma collectRestPeriods_Inr:
  "collectRestPeriods rs an sel = Inr flat \<Longrightarrow>
   map (\<lambda>x. (runnerId x, rest x)) flat =
     concat (map (\<lambda>rid. map (Pair rid) (filter hasLocation (restPeriodsOf an rid))) sel)"
proof (induction sel arbitrary: flat)
  case Nil
  then show ?case by simp
next
  case (Cons rid rids)
  from Cons.prems obtain xs ys where
    x: "collectRunner rs an rid = Inr xs" and
    y: "collectRestPeriods rs an rids = Inr ys" and
    f: "flat = xs @ ys"
    by (auto split: sum.splits)
  show ?case
    using collectRunner_Inr [OF x] Cons.IH [OF y] f by simp
qed

lemma collectRunner_total:
  assumes "allRestPeriods (map_of an rid) \<noteq> None" and "findRunner rs rid \<noteq> None"
  shows "\<exists>xs. collectRunner rs an rid = Inr xs"
  using assms by (auto simp: collectRunner_def Let_def split: option.splits)

lemma collectRestPeriods_total:
  "\<forall>rid \<in> set sel. allRestPeriods (map_of an rid) \<noteq> None \<and> findRunner rs rid \<noteq> None \<Longrightarrow>
   \<exists>flat. collectRestPeriods rs an sel = Inr flat"
proof (induction sel)
  case Nil
  then show ?case by simp
next
  case (Cons rid rids)
  then obtain xs ys where "collectRunner rs an rid = Inr xs" "collectRestPeriods rs an rids = Inr ys"
    using collectRunner_total [of an rid rs] by auto
  then show ?case by simp
qed

lemma addToGroup_None:
  "addToGroup r gs = None \<longleftrightarrow> (\<forall>g \<in> set gs. \<not> fitsGroup r g)"
  by (induction gs) auto

lemma addToGroup_first:
  "\<forall>h \<in> set pre. \<not> fitsGroup r h \<Longrightarrow> fitsGroup r g \<Longrightarrow>
   addToGroup r (pre @ g # post) = Some (pre @ (g @ [r]) # post)"
  by (induction pre) auto

lemma placeRest_new:
  "\<forall>g \<in> set gs. \<not> fitsGroup r g \<Longrightarrow> placeRest gs r = gs @ [[r]]"
  using addToGroup_None [of r gs] by (simp add: placeRest_def)

lemma placeRest_first:
  "\<forall>h \<in> set pre. \<not> fitsGroup r h \<Longrightarrow> fitsGroup r g \<Longrightarrow>
   placeRest (pre @ g # post) r = pre @ (g @ [r]) # post"
  by (simp add: placeRest_def addToGroup_first)

lemma placeRest_cases:
  "(\<forall>g \<in> set gs. \<not> fitsGroup r g) \<and> placeRest gs r = gs @ [[r]] \<or>
   (\<exists>pre g post. gs = pre @ g # post \<and> (\<forall>h \<in> set pre. \<not> fitsGroup r h) \<and> fitsGroup r g \<and>
       placeRest gs r = pre @ (g @ [r]) # post)"
proof (cases "\<forall>g \<in> set gs. \<not> fitsGroup r g")
  case True
  then show ?thesis using placeRest_new by blast
next
  case False
  then have "\<exists>g \<in> set gs. fitsGroup r g" by blast
  then obtain pre g post where "gs = pre @ g # post" "fitsGroup r g" "\<forall>h \<in> set pre. \<not> fitsGroup r h"
    using split_list_first_prop [of gs "fitsGroup r"] by blast
  then show ?thesis using placeRest_first by blast
qed

lemma placeRest_concat:
  "mset (concat (placeRest gs r)) = mset (concat gs) + {#r#}"
  using placeRest_cases [of gs r] by auto

lemma placeRest_nonempty:
  "[] \<notin> set gs \<Longrightarrow> [] \<notin> set (placeRest gs r)"
  using placeRest_cases [of gs r] by auto

lemma foldl_placeRest_nonempty:
  "[] \<notin> set gs \<Longrightarrow> [] \<notin> set (foldl placeRest gs xs)"
  by (induction xs arbitrary: gs) (auto simp: placeRest_nonempty)

lemma groupRestPeriods_nonempty: "[] \<notin> set (groupRestPeriods xs)"
  by (simp add: groupRestPeriods_def foldl_placeRest_nonempty)

lemma foldl_placeRest_mset:
  "mset (concat (foldl placeRest gs xs)) = mset (concat gs) + mset xs"
  by (induction xs arbitrary: gs) (auto simp: placeRest_concat)

lemma groupRestPeriods_mset: "mset (concat (groupRestPeriods xs)) = mset xs"
  by (simp add: groupRestPeriods_def foldl_placeRest_mset)












subsection \<open>The clustering step\<close>

lemma restMile_examples:
  "restMile restX = 309 / 4" "restMile restY = 79" "restMile restU = 80" "restMile restV = 78"
  by (simp_all add: restMile_def resolvedMile_def num_or_def restX_def restY_def restU_def
        restV_def periodX_def periodY_def periodU_def periodV_def)

lemma station_examples:
  "aidStationOf restX = ''Whiskey Row''" "aidStationOf restY = ''Whiskey Row''"
  "aidStationOf restU = ''Unknown''" "aidStationOf restV = ''Crown King''"
  by (simp_all add: aidStationOf_def str_or_def restX_def restY_def restU_def restV_def
        periodX_def periodY_def periodU_def periodV_def)





lemma avgMile_examples:
  "avgMile [restX] = 309 / 4" "avgMile [restX, restY] = 625 / 8" "avgMile [restU] = 80"
  "avgMile [restV] = 78"
  by (simp_all add: avgMile_def restMile_examples mean_X mean_XY mean_80 mean_78)


text \<open>
  The distances that the test of the loop computes: 27.4 is at 5.0000000000000036 from the
  mean 22.399999999999995 of 21, 22.8 and 23.4.
\<close>

lemma distance_examples:
  "dsub (restMile restY) (avgMile [restX]) = 7 / 4"
  "dsub (restMile restV) (avgMile [restX]) = 3 / 4"
  by (simp_all only: restMile_examples avgMile_examples dist_Y_X dist_V_X)


lemma fits_Y_X: "fitsGroup restY [restX]"
  by (simp add: fitsGroup_def distance_examples station_examples MILE_VARIANCE_THRESHOLD_def)


lemma fits_U_XY: "\<not> fitsGroup restU [restX, restY]"
  by (simp add: fitsGroup_def station_examples)






subsection \<open>The pipeline on the concrete inputs\<close>

lemma hasLocation_examples:
  "hasLocation periodX" "hasLocation periodY" "hasLocation periodU" "\<not> hasLocation periodZero"
  "hasLocation periodV"
  by (simp_all add: hasLocation_def truthy_num_def periodX_def periodY_def periodU_def
        periodZero_def periodV_def)

lemma tagRest_examples:
  "tagRest 11 \<lparr>runner_id = 11, first_name = ''X'', last_name = ''Runner''\<rparr> periodX = restX"
  "tagRest 12 \<lparr>runner_id = 12, first_name = ''Y'', last_name = ''Runner''\<rparr> periodY = restY"
  "tagRest 12 \<lparr>runner_id = 12, first_name = ''Y'', last_name = ''Runner''\<rparr> periodU = restU"
  "tagRest 11 \<lparr>runner_id = 11, first_name = ''X'', last_name = ''Runner''\<rparr> periodV = restV"
  by (simp_all add: tagRest_def restX_def restY_def restU_def restV_def)

lemma collectRunner_examples:
  "collectRunner runners0 analyses0 11 = Inr [restX]"
  "collectRunner runners0 analyses0 12 = Inr [restU, restY]"
  "collectRunner runners0 analyses0 13 = Inr []"
  by (simp_all add: collectRunner_def allRestPeriods_def analyses0_def runners0_def findRunner_def
        hasLocation_examples tagRest_examples)


lemma collect_example:
  "collectRestPeriods runners0 analyses0 [11, 12, 13] = Inr [restX, restU, restY]"
  by (simp add: collectRunner_examples)


lemma sort_example: "sortRestPeriods [restX, restU, restY] = [restX, restY, restU]"
  by (simp add: sortRestPeriods_def restMile_examples)


lemma group_example: "groupRestPeriods [restX, restY, restU] = [[restX, restY], [restU]]"
  using fits_Y_X fits_U_XY by (simp add: groupRestPeriods_def placeRest_def)



lemma restGroups_example:
  "restGroups runners0 analyses0 [11, 12, 13] = Inr [[restX, restY], [restU]]"
proof -
  have "restGroups runners0 analyses0 [11, 12, 13] =
      Inr (sortRestGroups (groupRestPeriods (sortRestPeriods [restX, restU, restY])))"
    unfolding restGroups_def collect_example by simp
  then show ?thesis
    by (simp add: sort_example group_example sortRestGroups_def avgMile_examples)
qed


subsection \<open>Input and output of the clusterer\<close>



lemma collected_hasLocation:
  assumes "collectRestPeriods rs an sel = Inr flat" and "x \<in> set flat"
  shows "hasLocation (rest x)"
proof -
  have "(runnerId x, rest x) \<in> set (map (\<lambda>x. (runnerId x, rest x)) flat)"
    using assms(2) by force
  then show ?thesis
    unfolding collectRestPeriods_Inr [OF assms(1)] by auto
qed

lemma restGroups_Inr:
  assumes "restGroups rs an sel = Inr groups"
  obtains flat where "collectRestPeriods rs an sel = Inr flat"
    and "groups = sortRestGroups (groupRestPeriods (sortRestPeriods flat))"
  using assms by (auto simp: restGroups_def split: sum.splits)

lemma restGroups_members:
  assumes "collectRestPeriods rs an sel = Inr flat"
    and "groups = sortRestGroups (groupRestPeriods (sortRestPeriods flat))"
  shows "\<Union> (set ` set groups) = set flat"
proof -
  have "\<Union> (set ` set groups) = set (concat (groupRestPeriods (sortRestPeriods flat)))"
    by (simp add: assms(2) sortRestGroups_def)
  also have "\<dots> = set_mset (mset (concat (groupRestPeriods (sortRestPeriods flat))))"
    by simp
  also have "\<dots> = set flat"
    unfolding groupRestPeriods_mset by (simp add: sortRestPeriods_def)
  finally show ?thesis .
qed



text \<open>
  Claim C10. The resolved mile is \<open>mile\<close> when that is present and not zero, and
  otherwise \<open>start_mile\<close>. A rest period has a location exactly when one of the two
  is present and not zero; every member of every group has one, so a rest period at
  mile 0 without \<open>start_mile\<close> is in no group.
\<close>

theorem resolved_mile_and_exclusion:
  "(mile p = Some m \<and> m \<noteq> 0 \<longrightarrow> resolvedMile p = m) \<and>
   ((mile p = None \<or> mile p = Some 0) \<and> start_mile p = Some s \<longrightarrow> resolvedMile p = s) \<and>
   (hasLocation p \<longleftrightarrow>
      \<not> ((mile p = None \<or> mile p = Some 0) \<and> (start_mile p = None \<or> start_mile p = Some 0))) \<and>
   (restGroups rs an sel = Inr groups \<longrightarrow>
      (\<forall>g \<in> set groups. \<forall>r \<in> set g. hasLocation (rest r)) \<and>
      (mile p = Some 0 \<and> start_mile p = None \<longrightarrow> (\<forall>g \<in> set groups. \<forall>r \<in> set g. rest r \<noteq> p)))"
proof (intro conjI impI)
  assume "mile p = Some m \<and> m \<noteq> 0"
  then show "resolvedMile p = m" by (simp add: resolvedMile_def num_or_def)
next
  assume "(mile p = None \<or> mile p = Some 0) \<and> start_mile p = Some s"
  then show "resolvedMile p = s" by (auto simp: resolvedMile_def num_or_def)
next
  show "hasLocation p \<longleftrightarrow>
      \<not> ((mile p = None \<or> mile p = Some 0) \<and> (start_mile p = None \<or> start_mile p = Some 0))"
    by (auto simp: hasLocation_def truthy_num_def split: option.splits)
next
  assume a: "restGroups rs an sel = Inr groups"
  then obtain flat where
    c: "collectRestPeriods rs an sel = Inr flat" and
    g: "groups = sortRestGroups (groupRestPeriods (sortRestPeriods flat))"
    by (rule restGroups_Inr)
  show all: "\<forall>g \<in> set groups. \<forall>r \<in> set g. hasLocation (rest r)"
    using restGroups_members [OF c g] collected_hasLocation [OF c] by blast
  assume "mile p = Some 0 \<and> start_mile p = None"
  then have "\<not> hasLocation p" by (simp add: hasLocation_def truthy_num_def)
  with all show "\<forall>g \<in> set groups. \<forall>r \<in> set g. rest r \<noteq> p" by blast
qed

theorem resolved_mile_and_exclusion_witness:
  "resolvedMile periodX = 309 / 4 \<and> resolvedMile periodU = 80 \<and> \<not> hasLocation periodZero \<and>
   restGroups runners0 analyses0 [11, 12, 13] = Inr [[restX, restY], [restU]] \<and>
   rest restX \<noteq> periodZero \<and> rest restY \<noteq> periodZero \<and> rest restU \<noteq> periodZero"
proof -
  have "resolvedMile periodX = 309 / 4"
    using resolved_mile_and_exclusion [of periodX "309 / 4"] by (simp add: periodX_def)
  moreover have "resolvedMile periodU = 80"
    using resolved_mile_and_exclusion [of periodU _ 80] by (simp add: periodU_def)
  moreover have z: "mile periodZero = Some 0 \<and> start_mile periodZero = None"
    by (simp add: periodZero_def)
  then have "\<not> hasLocation periodZero"
    using resolved_mile_and_exclusion [of periodZero] by blast
  moreover have "\<forall>g \<in> set [[restX, restY], [restU]]. \<forall>r \<in> set g. rest r \<noteq> periodZero"
    using resolved_mile_and_exclusion [of periodZero _ _ runners0 analyses0 "[11, 12, 13]"
        "[[restX, restY], [restU]]"] restGroups_example z by blast
  then have "rest restX \<noteq> periodZero \<and> rest restY \<noteq> periodZero \<and> rest restU \<noteq> periodZero"
    by simp
  ultimately show ?thesis using restGroups_example by blast
qed

section \<open>Properties of the selection\<close>

subsection \<open>The selector\<close>

lemma betterRest_preferred:
  "betterRest avg best current = (if preferred avg current best then current else best)"
  by (auto simp: betterRest_def preferred_def Let_def)

lemma preferred_irrefl: "\<not> preferred avg a a"
  by (simp add: preferred_def)

lemma preferred_trans: "preferred avg a b \<Longrightarrow> preferred avg b c \<Longrightarrow> preferred avg a c"
  unfolding preferred_def by linarith

lemma preferred_asym: "preferred avg a b \<Longrightarrow> \<not> preferred avg b a"
  unfolding preferred_def by linarith

lemma preferred_negtrans:
  "\<not> preferred avg a b \<Longrightarrow> \<not> preferred avg b c \<Longrightarrow> \<not> preferred avg a c"
  unfolding preferred_def by linarith

lemma preferred_total:
  "preferenceKey avg a \<noteq> preferenceKey avg b \<Longrightarrow> preferred avg a b \<or> preferred avg b a"
  unfolding preferred_def preferenceKey_def by auto

lemma preferred_key_eq:
  "preferenceKey avg a = preferenceKey avg b \<Longrightarrow> \<not> preferred avg a b"
  unfolding preferred_def preferenceKey_def by auto

lemma betterRest_unbeaten:
  "\<not> preferred avg best (betterRest avg best current)"
  "\<not> preferred avg current (betterRest avg best current)"
  using preferred_asym [of avg current best]
  by (auto simp: betterRest_preferred preferred_irrefl)

lemma foldl_betterRest_max:
  "foldl (betterRest avg) r rs \<in> set (r # rs) \<and>
   (\<forall>e \<in> set (r # rs). \<not> preferred avg e (foldl (betterRest avg) r rs))"
proof (induction rs arbitrary: r)
  case Nil
  show ?case by (simp add: preferred_irrefl)
next
  case (Cons x xs)
  let ?b = "betterRest avg r x"
  let ?m = "foldl (betterRest avg) ?b xs"
  from Cons.IH [of ?b] have mem: "?m \<in> set (?b # xs)"
    and best: "\<forall>e \<in> set (?b # xs). \<not> preferred avg e ?m"
    by blast+
  have b: "?b = r \<or> ?b = x" by (simp add: betterRest_preferred)
  from best have bm: "\<not> preferred avg ?b ?m" by simp
  have "\<not> preferred avg r ?m"
    by (rule preferred_negtrans [OF betterRest_unbeaten(1) bm])
  moreover have "\<not> preferred avg x ?m"
    by (rule preferred_negtrans [OF betterRest_unbeaten(2) bm])
  moreover have "?m \<in> set (r # x # xs)" using mem b by auto
  ultimately show ?case using best by simp
qed

lemma bestRest_max:
  assumes "rests \<noteq> []"
  shows "\<exists>m. bestRest avg rests = Some m \<and> m \<in> set rests \<and>
     (\<forall>e \<in> set rests. \<not> preferred avg e m)"
proof (cases rests)
  case Nil
  with assms show ?thesis by simp
next
  case (Cons r rs)
  then show ?thesis
    using foldl_betterRest_max [of avg r rs] by (simp add: bestRest_def)
qed









lemma restLowHigh_facts:
  "runnerId restLow = 14" "runnerId restHigh = 14"
  "confidence (rest restLow) = Some ''low''" "confidence (rest restHigh) = Some ''high''"
  by (simp_all add: restLow_def restHigh_def restAt_def)






lemma tie_facts:
  "restMile tieA = 10" "restMile tieB = 14" "restPace tieA = 0" "restPace tieB = 0"
  "getConfidenceScore (confidence (rest tieA)) = 2"
  "getConfidenceScore (confidence (rest tieB)) = 2"
  "aidStationOf tieA = aidStationOf tieB"
  by (simp_all add: tieA_def tieB_def restAt_def restMile_def resolvedMile_def restPace_def
        num_or_def getConfidenceScore_def aidStationOf_def)

lemma tie_avgMile: "avgMile [tieA, tieB] = 12" "avgMile [tieA] = 10"
  by (simp_all add: avgMile_def tie_facts mean_10_14 mean_10)

lemma tie_distances:
  "dsub (restMile tieB) (avgMile [tieA]) = 4"
  "dsub (restMile tieA) 12 = - 2" "dsub (restMile tieB) 12 = 2"
  by (simp_all only: tie_facts tie_avgMile dist_14_10 dist_10_12 dist_14_12)

text \<open>
  Claim C6 fails as stated: the two rest periods of the tie differ in their mile and are
  in one group, yet neither is preferred over the other, and the reducer keeps
  whichever comes first.
\<close>

theorem preference_tie_counterexample:
  "tieA \<noteq> tieB \<and> mile (rest tieA) \<noteq> mile (rest tieB) \<and>
   groupRestPeriods [tieA, tieB] = [[tieA, tieB]] \<and> avgMile [tieA, tieB] = 12 \<and>
   \<not> preferred 12 tieA tieB \<and> \<not> preferred 12 tieB tieA \<and>
   betterRest 12 tieA tieB = tieA \<and> betterRest 12 tieB tieA = tieB"
proof -
  have d: "mile (rest tieA) \<noteq> mile (rest tieB)"
    by (simp add: tieA_def tieB_def restAt_def)
  then have "tieA \<noteq> tieB" by auto
  moreover have "fitsGroup tieB [tieA]"
    by (simp add: fitsGroup_def tie_facts(7) tie_distances MILE_VARIANCE_THRESHOLD_def)
  then have "groupRestPeriods [tieA, tieB] = [[tieA, tieB]]"
    by (simp add: groupRestPeriods_def placeRest_def)
  moreover have n: "\<not> preferred 12 tieA tieB" "\<not> preferred 12 tieB tieA"
    by (simp_all add: preferred_def tie_facts(3-6) tie_distances)
  moreover have "betterRest 12 tieA tieB = tieA" "betterRest 12 tieB tieA = tieB"
    using n by (simp_all add: betterRest_preferred)
  ultimately show ?thesis using d tie_avgMile(1) by blast
qed

text \<open>
  Claim C6, amended. The preference is a strict order whose ties are exactly the pairs
  that agree in confidence score, rest pace and distance from the mean mile: it is
  irreflexive and transitive, of two rest periods that differ in one of the three
  exactly one is preferred over the other, and of two that agree in all three neither
  is, the reducer keeping the earlier one. The reducer replaces the best so far exactly
  when the current rest period is preferred over it.
\<close>

theorem preference_strict_weak_order:
  "\<not> preferred avg a a \<and>
   (preferred avg a b \<and> preferred avg b c \<longrightarrow> preferred avg a c) \<and>
   (preferenceKey avg a \<noteq> preferenceKey avg b \<longrightarrow>
      (preferred avg a b \<or> preferred avg b a) \<and> \<not> (preferred avg a b \<and> preferred avg b a)) \<and>
   (preferenceKey avg a = preferenceKey avg b \<longrightarrow>
      \<not> preferred avg a b \<and> \<not> preferred avg b a \<and> betterRest avg a b = a) \<and>
   betterRest avg best current = (if preferred avg current best then current else best)"
proof (intro conjI impI)
  show "\<not> preferred avg a a" by (rule preferred_irrefl)
  show "preferred avg a c" if "preferred avg a b \<and> preferred avg b c"
    using that preferred_trans by blast
  show "preferred avg a b \<or> preferred avg b a" if "preferenceKey avg a \<noteq> preferenceKey avg b"
    using that by (rule preferred_total)
  show "\<not> (preferred avg a b \<and> preferred avg b a)"
    using preferred_asym by blast
  show "\<not> preferred avg a b" if "preferenceKey avg a = preferenceKey avg b"
    using that by (rule preferred_key_eq)
  show "\<not> preferred avg b a" if "preferenceKey avg a = preferenceKey avg b"
    using that preferred_key_eq [of avg b a] by simp
  show "betterRest avg a b = a" if "preferenceKey avg a = preferenceKey avg b"
    using that preferred_key_eq [of avg b a] by (simp add: betterRest_preferred)
  show "betterRest avg best current = (if preferred avg current best then current else best)"
    by (rule betterRest_preferred)
qed

theorem preference_strict_weak_order_witness:
  "preferred 12 restHigh restLow \<and> \<not> preferred 12 restLow restHigh \<and>
   \<not> preferred 12 tieA tieB \<and> \<not> preferred 12 tieB tieA \<and> betterRest 12 tieA tieB = tieA"
proof -
  have k: "preferenceKey 12 restHigh \<noteq> preferenceKey 12 restLow"
    by (simp add: preferenceKey_def restLowHigh_facts getConfidenceScore_def)
  have l: "\<not> preferred 12 restLow restHigh"
    by (simp add: preferred_def restLowHigh_facts getConfidenceScore_def)
  have t: "preferenceKey 12 tieA = preferenceKey 12 tieB"
    by (simp add: preferenceKey_def tie_facts(3-6) tie_distances)
  from preference_strict_weak_order [of 12 restHigh restLow] k l
  have "preferred 12 restHigh restLow" by blast
  moreover from preference_strict_weak_order [of 12 tieA tieB] t
  have "\<not> preferred 12 tieA tieB \<and> \<not> preferred 12 tieB tieA \<and> betterRest 12 tieA tieB = tieA"
    by blast
  ultimately show ?thesis using l by blast
qed

subsection \<open>One card per runner and group\<close>

lemma runnerCard_absent:
  assumes "\<forall>e \<in> set g. runnerId e \<noteq> rid"
  shows "runnerCard g rid = PlaceholderCard (avgMile g) (groupAidStationName g)"
proof -
  have "runnerRestsOf g rid = []"
    using assms by (auto simp: runnerRestsOf_def filter_empty_conv)
  then show ?thesis by (simp add: runnerCard_def bestRest_def)
qed

lemma runnerCard_present:
  assumes "\<exists>e \<in> set g. runnerId e = rid"
  shows "\<exists>m \<in> set g. runnerId m = rid \<and> runnerCard g rid = RestCard m"
proof -
  have "runnerRestsOf g rid \<noteq> []"
    using assms by (auto simp: runnerRestsOf_def filter_empty_conv)
  from bestRest_max [OF this, of "avgMile g"] obtain m where
    "bestRest (avgMile g) (runnerRestsOf g rid) = Some m" "m \<in> set (runnerRestsOf g rid)"
    by blast
  then show ?thesis by (auto simp: runnerCard_def runnerRestsOf_def)
qed

lemma groupAidStationName_cases:
  "groupAidStationName g = [] \<and> (\<forall>m \<in> set g. \<not> truthy_str (nearby_aid_station (rest m))) \<or>
   (\<exists>m \<in> set g. nearby_aid_station (rest m) = Some (groupAidStationName g))"
proof (cases "find (\<lambda>r. truthy_str (nearby_aid_station (rest r))) g")
  case None
  then have "\<forall>m \<in> set g. \<not> truthy_str (nearby_aid_station (rest m))"
    by (auto simp: find_None_iff)
  moreover have "groupAidStationName g = []"
    by (simp add: groupAidStationName_def None)
  ultimately show ?thesis by blast
next
  case (Some r)
  then have "r \<in> set g" "truthy_str (nearby_aid_station (rest r))"
    by (auto simp: find_Some_iff)
  moreover from this(2) have "nearby_aid_station (rest r) = Some (str_or (nearby_aid_station (rest r)) [])"
    by (auto simp: truthy_str_def str_or_def split: option.splits)
  ultimately show ?thesis
    using Some by (auto simp: groupAidStationName_def)
qed

lemma rows_Inr:
  assumes "updateRestPeriodsListMultiRunner rs an = Inr (RestRows visible hidden)"
  obtains sel groups where "selectedRunners rs = Some sel" "restGroups rs an sel = Inr groups"
    "visible @ hidden = map (groupRow sel) groups"
proof -
  from assms obtain sel where s: "selectedRunners rs = Some sel"
    by (auto simp: updateRestPeriodsListMultiRunner_def split: if_splits option.splits)
  with assms obtain groups where g: "restGroups rs an sel = Inr groups"
    by (auto simp: updateRestPeriodsListMultiRunner_def split: if_splits sum.splits)
  with assms s have "visible = map (groupRow sel) (take 3 groups)"
    "hidden = map (groupRow sel) (drop 3 groups)"
    by (auto simp: updateRestPeriodsListMultiRunner_def split: if_splits)
  then have "visible @ hidden = map (groupRow sel) (take 3 groups @ drop 3 groups)"
    by (simp only: map_append)
  then have "visible @ hidden = map (groupRow sel) groups"
    by (simp only: append_take_drop_id)
  with s g that show ?thesis by blast
qed

lemma restGroups_total:
  assumes "\<forall>rid \<in> set sel. allRestPeriods (map_of an rid) \<noteq> None \<and> findRunner rs rid \<noteq> None"
  shows "\<exists>groups. restGroups rs an sel = Inr groups"
  using collectRestPeriods_total [OF assms] by (auto simp: restGroups_def)

lemma restGroups_nonempty:
  assumes g: "restGroups rs an sel = Inr groups"
    and r: "rid \<in> set sel" and p: "p \<in> set (restPeriodsOf an rid)" and l: "hasLocation p"
  shows "groups \<noteq> []"
proof -
  from g obtain flat where
    c: "collectRestPeriods rs an sel = Inr flat" and
    e: "groups = sortRestGroups (groupRestPeriods (sortRestPeriods flat))"
    by (rule restGroups_Inr)
  have "(rid, p) \<in> set (concat (map (\<lambda>rid. map (Pair rid) (filter hasLocation (restPeriodsOf an rid))) sel))"
    using r p l by auto
  then have "(rid, p) \<in> set (map (\<lambda>x. (runnerId x, rest x)) flat)"
    unfolding collectRestPeriods_Inr [OF c] .
  then have "set flat \<noteq> {}" by auto
  then show ?thesis
    using restGroups_members [OF c e] by auto
qed

text \<open>
  Claim C3. When every selected runner is known and has rest data of a known shape, and
  one of them has a located rest period, the rows are rendered. There is then one row
  per group and every row has one card per selected runner, in the order of the
  selection: for a runner with a rest period in the group it is one of these rest
  periods, and for a runner without one it is the placeholder with the mean mile of the
  group and its aid station name, which is the name of a member or empty when no member
  has one.
\<close>

theorem one_card_per_runner:
  "(an \<noteq> [] \<and> selectedRunners rs = Some sel \<and>
    (\<forall>rid \<in> set sel. allRestPeriods (map_of an rid) \<noteq> None \<and> findRunner rs rid \<noteq> None) \<and>
    (\<exists>rid \<in> set sel. \<exists>p \<in> set (restPeriodsOf an rid). hasLocation p) \<longrightarrow>
      (\<exists>visible hidden. updateRestPeriodsListMultiRunner rs an = Inr (RestRows visible hidden))) \<and>
   (updateRestPeriodsListMultiRunner rs an = Inr (RestRows visible hidden) \<longrightarrow>
      (\<exists>sel groups. selectedRunners rs = Some sel \<and> restGroups rs an sel = Inr groups \<and>
         length (visible @ hidden) = length groups \<and>
         (\<forall>i < length groups.
            length ((visible @ hidden) ! i) = length sel \<and>
            (\<forall>j < length sel.
               ((\<exists>e \<in> set (groups ! i). runnerId e = sel ! j) \<longrightarrow>
                  (\<exists>m \<in> set (groups ! i). runnerId m = sel ! j \<and>
                     (visible @ hidden) ! i ! j = RestCard m)) \<and>
               ((\<forall>e \<in> set (groups ! i). runnerId e \<noteq> sel ! j) \<longrightarrow>
                  (visible @ hidden) ! i ! j =
                    PlaceholderCard (avgMile (groups ! i)) (groupAidStationName (groups ! i))))) \<and>
         (\<forall>g \<in> set groups.
            groupAidStationName g = [] \<and>
              (\<forall>m \<in> set g. \<not> truthy_str (nearby_aid_station (rest m))) \<or>
            (\<exists>m \<in> set g. nearby_aid_station (rest m) = Some (groupAidStationName g)))))"
proof (intro conjI impI)
  assume a: "an \<noteq> [] \<and> selectedRunners rs = Some sel \<and>
    (\<forall>rid \<in> set sel. allRestPeriods (map_of an rid) \<noteq> None \<and> findRunner rs rid \<noteq> None) \<and>
    (\<exists>rid \<in> set sel. \<exists>p \<in> set (restPeriodsOf an rid). hasLocation p)"
  then obtain groups where g: "restGroups rs an sel = Inr groups"
    using restGroups_total [of sel an rs] by blast
  from a obtain rid p where "rid \<in> set sel" "p \<in> set (restPeriodsOf an rid)" "hasLocation p"
    by blast
  from restGroups_nonempty [OF g this] have ne: "groups \<noteq> []" .
  from a have "sel \<noteq> []" by auto
  with a g ne show "\<exists>visible hidden. updateRestPeriodsListMultiRunner rs an = Inr (RestRows visible hidden)"
    by (simp add: updateRestPeriodsListMultiRunner_def)
next
  assume "updateRestPeriodsListMultiRunner rs an = Inr (RestRows visible hidden)"
  then obtain sel groups where
    s: "selectedRunners rs = Some sel" and
    g: "restGroups rs an sel = Inr groups" and
    rows: "visible @ hidden = map (groupRow sel) groups"
    by (rule rows_Inr)
  have len: "length (visible @ hidden) = length groups"
    unfolding rows by simp
  have cell: "(visible @ hidden) ! i ! j = runnerCard (groups ! i) (sel ! j)"
    if "i < length groups" "j < length sel" for i j
    unfolding rows using that by (simp add: groupRow_def)
  have row: "length ((visible @ hidden) ! i) = length sel" if "i < length groups" for i
    unfolding rows using that by (simp add: groupRow_def)
  have cards: "\<forall>i < length groups.
            length ((visible @ hidden) ! i) = length sel \<and>
            (\<forall>j < length sel.
               ((\<exists>e \<in> set (groups ! i). runnerId e = sel ! j) \<longrightarrow>
                  (\<exists>m \<in> set (groups ! i). runnerId m = sel ! j \<and>
                     (visible @ hidden) ! i ! j = RestCard m)) \<and>
               ((\<forall>e \<in> set (groups ! i). runnerId e \<noteq> sel ! j) \<longrightarrow>
                  (visible @ hidden) ! i ! j =
                    PlaceholderCard (avgMile (groups ! i)) (groupAidStationName (groups ! i))))"
    using row cell runnerCard_present runnerCard_absent by simp
  have names: "\<forall>g \<in> set groups.
            groupAidStationName g = [] \<and>
              (\<forall>m \<in> set g. \<not> truthy_str (nearby_aid_station (rest m))) \<or>
            (\<exists>m \<in> set g. nearby_aid_station (rest m) = Some (groupAidStationName g))"
    using groupAidStationName_cases by blast
  show "\<exists>sel groups. selectedRunners rs = Some sel \<and> restGroups rs an sel = Inr groups \<and>
         length (visible @ hidden) = length groups \<and>
         (\<forall>i < length groups.
            length ((visible @ hidden) ! i) = length sel \<and>
            (\<forall>j < length sel.
               ((\<exists>e \<in> set (groups ! i). runnerId e = sel ! j) \<longrightarrow>
                  (\<exists>m \<in> set (groups ! i). runnerId m = sel ! j \<and>
                     (visible @ hidden) ! i ! j = RestCard m)) \<and>
               ((\<forall>e \<in> set (groups ! i). runnerId e \<noteq> sel ! j) \<longrightarrow>
                  (visible @ hidden) ! i ! j =
                    PlaceholderCard (avgMile (groups ! i)) (groupAidStationName (groups ! i))))) \<and>
         (\<forall>g \<in> set groups.
            groupAidStationName g = [] \<and>
              (\<forall>m \<in> set g. \<not> truthy_str (nearby_aid_station (rest m))) \<or>
            (\<exists>m \<in> set g. nearby_aid_station (rest m) = Some (groupAidStationName g)))"
    using s g len cards names by blast
qed

lemma runners0_facts:
  "selectedRunners runners0 = Some [11, 12, 13]" "analyses0 \<noteq> []"
  "findRunner runners0 11 \<noteq> None" "findRunner runners0 12 \<noteq> None" "findRunner runners0 13 \<noteq> None"
  "allRestPeriods (map_of analyses0 11) \<noteq> None" "allRestPeriods (map_of analyses0 12) \<noteq> None"
  "allRestPeriods (map_of analyses0 13) \<noteq> None"
  "periodX \<in> set (restPeriodsOf analyses0 11)"
  by (simp_all add: runners0_def analyses0_def findRunner_def allRestPeriods_def restPeriodsOf_def)

lemma rest_examples_fields:
  "runnerId restX = 11" "runnerId restY = 12" "runnerId restU = 12"
  "nearby_aid_station (rest restX) = Some ''Whiskey Row''"
  "nearby_aid_station (rest restY) = Some ''Whiskey Row''"
  "nearby_aid_station (rest restU) = None"
  by (simp_all add: restX_def restY_def restU_def periodX_def periodY_def periodU_def)

lemma runnerCard_examples:
  "runnerCard [restX, restY] 11 = RestCard restX"
  "runnerCard [restX, restY] 12 = RestCard restY"
  "runnerCard [restX, restY] 13 = PlaceholderCard (625 / 8) ''Whiskey Row''"
  "runnerCard [restU] 11 = PlaceholderCard 80 []"
  "runnerCard [restU] 12 = RestCard restU"
  "runnerCard [restU] 13 = PlaceholderCard 80 []"
  by (simp_all add: runnerCard_def runnerRestsOf_def bestRest_def avgMile_examples
        groupAidStationName_def truthy_str_def str_or_def rest_examples_fields)

lemma rows_example:
  "updateRestPeriodsListMultiRunner runners0 analyses0 =
     Inr (RestRows
       [[RestCard restX, RestCard restY, PlaceholderCard (625 / 8) ''Whiskey Row''],
        [PlaceholderCard 80 [], RestCard restU, PlaceholderCard 80 []]] [])"
  unfolding updateRestPeriodsListMultiRunner_def
  by (simp add: runners0_facts restGroups_example groupRow_def runnerCard_examples)

theorem one_card_per_runner_witness:
  "(\<exists>visible hidden. updateRestPeriodsListMultiRunner runners0 analyses0 = Inr (RestRows visible hidden)) \<and>
   (\<exists>groups. restGroups runners0 analyses0 [11, 12, 13] = Inr groups \<and>
      length ([[RestCard restX, RestCard restY, PlaceholderCard (625 / 8) ''Whiskey Row''],
        [PlaceholderCard 80 [], RestCard restU, PlaceholderCard 80 []]] @ []) = length groups)"
proof -
  note inst = one_card_per_runner [of analyses0 runners0 "[11, 12, 13]"
      "[[RestCard restX, RestCard restY, PlaceholderCard (625 / 8) ''Whiskey Row''],
        [PlaceholderCard 80 [], RestCard restU, PlaceholderCard 80 []]]" "[]"]
  have "\<forall>rid \<in> set [11, 12, 13::nat].
      allRestPeriods (map_of analyses0 rid) \<noteq> None \<and> findRunner runners0 rid \<noteq> None"
    using runners0_facts by simp
  moreover have "\<exists>rid \<in> set [11, 12, 13::nat]. \<exists>p \<in> set (restPeriodsOf analyses0 rid). hasLocation p"
    using runners0_facts(9) hasLocation_examples(1) by auto
  ultimately have 1: "\<exists>visible hidden.
      updateRestPeriodsListMultiRunner runners0 analyses0 = Inr (RestRows visible hidden)"
    using inst runners0_facts(1,2) by blast
  from inst rows_example runners0_facts(1)
  have 2: "\<exists>groups. restGroups runners0 analyses0 [11, 12, 13] = Inr groups \<and>
      length ([[RestCard restX, RestCard restY, PlaceholderCard (625 / 8) ''Whiskey Row''],
        [PlaceholderCard 80 [], RestCard restU, PlaceholderCard 80 []]] @ []) = length groups"
    by auto
  from 1 2 show ?thesis by blast
qed

section \<open>Properties of the summary table\<close>

lemma restCount_summaryOf:
  "restCount (summaryOf a) =
     (case rest_periods a of
        None \<Rightarrow> 0
      | Some (RestArray xs) \<Rightarrow> length xs
      | Some (RestObject None) \<Rightarrow> 0
      | Some (RestObject (Some ys)) \<Rightarrow> length ys)"
  by (simp add: summaryOf_def length_or_def nestedLength_def flatLength_def
           split: option.splits rest_data.splits)

text \<open>
  Claim C8. The table is built for every selection, whatever the analyses hold: the row
  of a runner is computed without a step that can throw. In the row of a runner with an
  analysis, an absent average fatigue and an absent peak fatigue mile give \<open>N/A\<close>, the
  rest count is the length of the nested collection, else that of the bare array, else
  0, and an absent strongest terrain or elevation tolerance gives \<open>Unknown\<close>.
\<close>

theorem summary_defaults:
  "(selectedRunners rs = Some sel \<longrightarrow>
      updateMultiRunnerTable rs an = Inr (map (runnerTableRow rs an) sel)) \<and>
   (findRunner rs rid = Some r \<and> map_of an rid = Some a \<longrightarrow>
      runnerTableRow rs an rid = SummaryRow (first_name r @ '' '' @ last_name r) (summaryOf a)) \<and>
   ((\<forall>f. fatigue_analysis a = Some f \<longrightarrow> average_fatigue f = None) \<longrightarrow>
      avgFatigue (summaryOf a) = Text ''N/A'') \<and>
   ((\<forall>f. fatigue_analysis a = Some f \<longrightarrow> peak_fatigue_mile f = None) \<longrightarrow>
      peakMile (summaryOf a) = Text ''N/A'') \<and>
   (rest_periods a = Some (RestObject (Some ys)) \<longrightarrow> restCount (summaryOf a) = length ys) \<and>
   (rest_periods a = Some (RestArray xs) \<longrightarrow> restCount (summaryOf a) = length xs) \<and>
   (rest_periods a = None \<or> rest_periods a = Some (RestObject None) \<longrightarrow>
      restCount (summaryOf a) = 0) \<and>
   ((\<forall>c. course_analysis a = Some c \<longrightarrow> strongest_terrain c = None) \<longrightarrow>
      strongestTerrain (summaryOf a) = ''Unknown'') \<and>
   ((\<forall>c. course_analysis a = Some c \<longrightarrow> elevation_tolerance c = None) \<longrightarrow>
      elevationTolerance (summaryOf a) = ''Unknown'')"
proof (intro conjI impI)
  show "updateMultiRunnerTable rs an = Inr (map (runnerTableRow rs an) sel)"
    if "selectedRunners rs = Some sel"
    using that by (simp add: updateMultiRunnerTable_def)
  show "runnerTableRow rs an rid = SummaryRow (first_name r @ '' '' @ last_name r) (summaryOf a)"
    if "findRunner rs rid = Some r \<and> map_of an rid = Some a"
    using that by (simp add: runnerTableRow_def)
  show "avgFatigue (summaryOf a) = Text ''N/A''"
    if "\<forall>f. fatigue_analysis a = Some f \<longrightarrow> average_fatigue f = None"
    using that by (simp add: summaryOf_def split: option.splits)
  show "peakMile (summaryOf a) = Text ''N/A''"
    if "\<forall>f. fatigue_analysis a = Some f \<longrightarrow> peak_fatigue_mile f = None"
    using that by (simp add: summaryOf_def split: option.splits)
  show "restCount (summaryOf a) = length ys" if "rest_periods a = Some (RestObject (Some ys))"
    using that by (simp add: restCount_summaryOf)
  show "restCount (summaryOf a) = length xs" if "rest_periods a = Some (RestArray xs)"
    using that by (simp add: restCount_summaryOf)
  show "restCount (summaryOf a) = 0"
    if "rest_periods a = None \<or> rest_periods a = Some (RestObject None)"
    using that by (auto simp: restCount_summaryOf)
  show "strongestTerrain (summaryOf a) = ''Unknown''"
    if "\<forall>c. course_analysis a = Some c \<longrightarrow> strongest_terrain c = None"
    using that by (simp add: summaryOf_def str_or_def split: option.splits)
  show "elevationTolerance (summaryOf a) = ''Unknown''"
    if "\<forall>c. course_analysis a = Some c \<longrightarrow> elevation_tolerance c = None"
    using that by (simp add: summaryOf_def str_or_def split: option.splits)
qed

theorem summary_defaults_witness:
  "summaryOf bareAnalysis =
     \<lparr>avgFatigue = Text ''N/A'', peakMile = Text ''N/A'', restCount = 0,
      strongestTerrain = ''Unknown'', elevationTolerance = ''Unknown''\<rparr> \<and>
   updateMultiRunnerTable runners0 analyses0 =
     Inr (map (runnerTableRow runners0 analyses0) [11, 12, 13]) \<and>
   restCount (summaryOf (snd (analyses0 ! 1))) = 2"
proof -
  note d = summary_defaults [of _ _ _ _ _ bareAnalysis]
  have b: "fatigue_analysis bareAnalysis = None" "course_analysis bareAnalysis = None"
    "rest_periods bareAnalysis = None"
    by (simp_all add: bareAnalysis_def)
  have "avgFatigue (summaryOf bareAnalysis) = Text ''N/A''"
    "peakMile (summaryOf bareAnalysis) = Text ''N/A''"
    "restCount (summaryOf bareAnalysis) = 0"
    "strongestTerrain (summaryOf bareAnalysis) = ''Unknown''"
    "elevationTolerance (summaryOf bareAnalysis) = ''Unknown''"
    using d b by simp_all
  then have 1: "summaryOf bareAnalysis =
     \<lparr>avgFatigue = Text ''N/A'', peakMile = Text ''N/A'', restCount = 0,
      strongestTerrain = ''Unknown'', elevationTolerance = ''Unknown''\<rparr>"
    by (cases "summaryOf bareAnalysis") simp
  have 2: "updateMultiRunnerTable runners0 analyses0 =
     Inr (map (runnerTableRow runners0 analyses0) [11, 12, 13])"
    using summary_defaults [of runners0 "[11, 12, 13]" analyses0] runners0_facts(1) by blast
  have "rest_periods (snd (analyses0 ! 1)) = Some (RestObject (Some [periodU, periodY]))"
    by (simp add: analyses0_def)
  with summary_defaults [of _ _ _ _ _ "snd (analyses0 ! 1)" "[periodU, periodY]"]
  have 3: "restCount (summaryOf (snd (analyses0 ! 1))) = 2"
    by simp
  from 1 2 3 show ?thesis by blast
qed

section \<open>Properties of the critical segments\<close>

subsection \<open>The statistics object\<close>

lemma firstEncountered_snoc:
  "firstEncountered (xs @ [x]) =
     (if x \<in> set xs then firstEncountered xs else firstEncountered xs @ [x])"
  by (simp add: firstEncountered_def)

lemma firstEncountered_set [simp]: "set (firstEncountered xs) = set xs"
  by (simp add: firstEncountered_def)

lemma firstEncountered_distinct [simp]: "distinct (firstEncountered xs)"
  by (simp add: firstEncountered_def)

lemma firstEncountered_Nil [simp]: "firstEncountered [] = []"
  by (simp add: firstEncountered_def)

lemma map_of_grouped:
  "map_of (grouped ps) n = (if n \<in> name ` set ps then Some (statsOf ps n) else None)"
  by (simp add: grouped_def map_of_map_restrict restrict_map_def)

lemma statsOf_snoc_other:
  "n \<noteq> name p \<Longrightarrow> statsOf (ps @ [p]) n = statsOf ps n"
  by (simp add: statsOf_def)

lemma statsOf_snoc_same:
  "statsOf (ps @ [p]) (name p) = pushPerformance p (statsOf ps (name p))"
  by (simp add: statsOf_def pushPerformance_def)

lemma statsOf_absent:
  "n \<notin> name ` set ps \<Longrightarrow> statsOf ps n = \<lparr>difficulties = [], performances = [], count_n = 0\<rparr>"
  by (auto simp: statsOf_def filter_empty_conv)

lemma push_grouped:
  "map (\<lambda>(k, s). if k = name p then (k, pushPerformance p s) else (k, s))
       (map (\<lambda>n. (n, statsOf ps n)) ns) =
   map (\<lambda>n. (n, statsOf (ps @ [p]) n)) ns"
  by (induction ns) (simp_all add: statsOf_snoc_same statsOf_snoc_other)

lemma addPerformance_grouped:
  assumes "name p \<notin> set objectPrototypeKeys"
  shows "addPerformance p (grouped ps) = Inr (grouped (ps @ [p]))"
proof (cases "name p \<in> name ` set ps")
  case True
  then have "addPerformance p (grouped ps) =
      Inr (map (\<lambda>(k, s). if k = name p then (k, pushPerformance p s) else (k, s)) (grouped ps))"
    by (simp add: addPerformance_def map_of_grouped)
  also have "\<dots> = Inr (grouped (ps @ [p]))"
  proof -
    have "firstEncountered (map name (ps @ [p])) = firstEncountered (map name ps)"
      using True by (simp add: firstEncountered_snoc)
    then show ?thesis
      unfolding grouped_def push_grouped by simp
  qed
  finally show ?thesis .
next
  case False
  let ?new = "(name p, \<lparr>difficulties = [], performances = [], count_n = 0\<rparr>)"
  have new: "?new = (name p, statsOf ps (name p))"
    using False by (simp add: statsOf_absent)
  have "addPerformance p (grouped ps) =
      Inr (map (\<lambda>(k, s). if k = name p then (k, pushPerformance p s) else (k, s))
             (grouped ps @ [?new]))"
    using False assms by (simp add: addPerformance_def map_of_grouped Let_def)
  also have "grouped ps @ [?new] = map (\<lambda>n. (n, statsOf ps n)) (firstEncountered (map name ps) @ [name p])"
    unfolding new by (simp add: grouped_def)
  also have "map (\<lambda>(k, s). if k = name p then (k, pushPerformance p s) else (k, s)) \<dots> =
      grouped (ps @ [p])"
    using False unfolding push_grouped by (simp add: grouped_def firstEncountered_snoc)
  finally show ?thesis .
qed

lemma addPerformance_inherited:
  assumes "name p \<in> set objectPrototypeKeys" and "name p \<notin> name ` set ps"
  shows "addPerformance p (grouped ps) = Inl TypeError"
  using assms by (simp add: addPerformance_def map_of_grouped)

lemma collectStats_grouped:
  "\<forall>p \<in> set qs. name p \<notin> set objectPrototypeKeys \<Longrightarrow>
   collectStats (grouped ps) qs = Inr (grouped (ps @ qs))"
proof (induction qs arbitrary: ps)
  case Nil
  show ?case by simp
next
  case (Cons q qs)
  then have "addPerformance q (grouped ps) = Inr (grouped (ps @ [q]))"
    by (simp add: addPerformance_grouped)
  moreover have "collectStats (grouped (ps @ [q])) qs = Inr (grouped ((ps @ [q]) @ qs))"
    using Cons.prems by (intro Cons.IH) simp
  ultimately show ?case by simp
qed

lemma grouped_Nil: "grouped [] = []"
  by (simp add: grouped_def)

lemma collectStats_ok:
  assumes "\<forall>p \<in> set ps. name p \<notin> set objectPrototypeKeys"
  shows "collectStats [] ps = Inr (grouped ps)"
  using collectStats_grouped [OF assms, of "[]"] by (simp add: grouped_Nil)

lemma collectStats_error_grouped:
  "\<exists>p \<in> set qs. name p \<in> set objectPrototypeKeys \<Longrightarrow>
   \<forall>p \<in> set ps. name p \<notin> set objectPrototypeKeys \<Longrightarrow>
   collectStats (grouped ps) qs = Inl TypeError"
proof (induction qs arbitrary: ps)
  case Nil
  then show ?case by simp
next
  case (Cons q qs)
  show ?case
  proof (cases "name q \<in> set objectPrototypeKeys")
    case True
    then have "name q \<notin> name ` set ps" using Cons.prems(2) by auto
    with True show ?thesis by (simp add: addPerformance_inherited)
  next
    case False
    then have a: "addPerformance q (grouped ps) = Inr (grouped (ps @ [q]))"
      by (simp add: addPerformance_grouped)
    have "collectStats (grouped (ps @ [q])) qs = Inl TypeError"
      using Cons.prems False by (intro Cons.IH) auto
    with a show ?thesis by simp
  qed
qed

lemma collectStats_error:
  assumes "\<exists>p \<in> set ps. name p \<in> set objectPrototypeKeys"
  shows "collectStats [] ps = Inl TypeError"
  using collectStats_error_grouped [OF assms, of "[]"] by (simp add: grouped_Nil)

lemma objectEntries_mset: "mset (objectEntries props) = mset props"
  by (simp add: objectEntries_def)

lemma segmentSummaries_cases:
  "(\<exists>p \<in> set (segmentPerformances an sel). name p \<in> set objectPrototypeKeys) \<and>
     segmentSummaries an sel = Inl TypeError \<or>
   (\<forall>p \<in> set (segmentPerformances an sel). name p \<notin> set objectPrototypeKeys) \<and>
     segmentSummaries an sel =
       Inr (map toCritical (objectEntries (grouped (segmentPerformances an sel))))"
proof (cases "\<exists>p \<in> set (segmentPerformances an sel). name p \<in> set objectPrototypeKeys")
  case True
  then show ?thesis
    by (simp add: segmentSummaries_def collectStats_error)
next
  case False
  then have "\<forall>p \<in> set (segmentPerformances an sel). name p \<notin> set objectPrototypeKeys"
    by blast
  then show ?thesis
    by (simp add: segmentSummaries_def collectStats_ok)
qed

subsection \<open>The ranking on concrete inputs\<close>

lemma doubles_nonzero: "d0_1 \<noteq> 0" "d0_2 \<noteq> 0" "d0_3 \<noteq> 0"
  by (simp_all add: d0_1_def d0_2_def d0_3_def)

lemma isArrayIndex_examples:
  "isArrayIndex ''1''" "isArrayIndex ''2''" "\<not> isArrayIndex ''Start''"
  "arrayIndexValue ''1'' = 1" "arrayIndexValue ''2'' = 2"
  "\<not> isArrayIndex ''Start to Crown King''" "\<not> isArrayIndex ''Crown King to Whiskey Row''"
  "\<not> isArrayIndex ''Climb''" "\<not> isArrayIndex ''Descent''" "\<not> isArrayIndex ''Loop''"
  by (simp_all add: isArrayIndex_def arrayIndexValue_def digitValue_def)

text \<open>Scenario D of the specification.\<close>

lemma segmentPerformances_D:
  "segmentPerformances analysesD [21, 22] =
     [\<lparr>name = ''Start to Crown King'', difficulty = 5/2, performance = 3/4, perf_runnerId = 21\<rparr>,
      \<lparr>name = ''Crown King to Whiskey Row'', difficulty = 7/2, performance = 7/8,
        perf_runnerId = 21\<rparr>,
      \<lparr>name = ''Start to Crown King'', difficulty = 7/2, performance = 1/4, perf_runnerId = 22\<rparr>,
      \<lparr>name = ''Crown King to Whiskey Row'', difficulty = 9/2, performance = 5/8,
        perf_runnerId = 22\<rparr>]"
  by (simp add: segmentPerformances_def runnerSegments_def analysesD_def courseOf_def
        toPerformance_def num_or_def)

lemma segmentSummaries_D:
  "segmentSummaries analysesD [21, 22] =
     Inr [\<lparr>seg_name = ''Start to Crown King'', avgDifficulty = 3, avgPerformance = 1/2,
            seg_count = 2\<rparr>,
          \<lparr>seg_name = ''Crown King to Whiskey Row'', avgDifficulty = 4, avgPerformance = 3/4,
            seg_count = 2\<rparr>]"
proof -
  let ?ps = "segmentPerformances analysesD [21, 22]"
  have "\<forall>p \<in> set ?ps. name p \<notin> set objectPrototypeKeys"
    by (simp add: segmentPerformances_D objectPrototypeKeys_def)
  then have "collectStats [] ?ps = Inr (grouped ?ps)"
    by (rule collectStats_ok)
  moreover have "grouped ?ps =
     [(''Start to Crown King'',
        \<lparr>difficulties = [5/2, 7/2], performances = [3/4, 1/4], count_n = 2\<rparr>),
      (''Crown King to Whiskey Row'',
        \<lparr>difficulties = [7/2, 9/2], performances = [7/8, 5/8], count_n = 2\<rparr>)]"
    by (simp add: segmentPerformances_D grouped_def firstEncountered_def statsOf_def)
  ultimately show ?thesis
    by (simp add: segmentSummaries_def objectEntries_def isArrayIndex_examples toCritical_def
          mean_D_start mean_D_crown mean_D_start_score mean_D_crown_score)
qed

lemma criticalSegments_D:
  "criticalSegments analysesD [21, 22] =
     Inr [\<lparr>seg_name = ''Crown King to Whiskey Row'', avgDifficulty = 4, avgPerformance = 3/4,
            seg_count = 2\<rparr>,
          \<lparr>seg_name = ''Start to Crown King'', avgDifficulty = 3, avgPerformance = 1/2,
            seg_count = 2\<rparr>]"
  by (simp add: criticalSegments_def segmentSummaries_D)

text \<open>Segments of equal difficulty, met in an order that depends on the order of the runners.\<close>

lemma segmentPerformances_T:
  "segmentPerformances analysesT [31, 32] =
     [\<lparr>name = ''Start to Crown King'', difficulty = 3, performance = 1/2, perf_runnerId = 31\<rparr>,
      \<lparr>name = ''Crown King to Whiskey Row'', difficulty = 3, performance = 1/2,
        perf_runnerId = 31\<rparr>,
      \<lparr>name = ''Crown King to Whiskey Row'', difficulty = 3, performance = 1/2,
        perf_runnerId = 32\<rparr>]"
  "segmentPerformances analysesT [32, 31] =
     [\<lparr>name = ''Crown King to Whiskey Row'', difficulty = 3, performance = 1/2,
        perf_runnerId = 32\<rparr>,
      \<lparr>name = ''Start to Crown King'', difficulty = 3, performance = 1/2, perf_runnerId = 31\<rparr>,
      \<lparr>name = ''Crown King to Whiskey Row'', difficulty = 3, performance = 1/2,
        perf_runnerId = 31\<rparr>]"
  by (simp_all add: segmentPerformances_def runnerSegments_def analysesT_def courseOf_def
        toPerformance_def num_or_def)

lemma segmentSummaries_T:
  "segmentSummaries analysesT [31, 32] =
     Inr [\<lparr>seg_name = ''Start to Crown King'', avgDifficulty = 3, avgPerformance = 1/2,
            seg_count = 1\<rparr>,
          \<lparr>seg_name = ''Crown King to Whiskey Row'', avgDifficulty = 3, avgPerformance = 1/2,
            seg_count = 2\<rparr>]"
  "segmentSummaries analysesT [32, 31] =
     Inr [\<lparr>seg_name = ''Crown King to Whiskey Row'', avgDifficulty = 3, avgPerformance = 1/2,
            seg_count = 2\<rparr>,
          \<lparr>seg_name = ''Start to Crown King'', avgDifficulty = 3, avgPerformance = 1/2,
            seg_count = 1\<rparr>]"
proof -
  let ?ps = "segmentPerformances analysesT [31, 32]"
  let ?qs = "segmentPerformances analysesT [32, 31]"
  have "\<forall>p \<in> set ?ps. name p \<notin> set objectPrototypeKeys"
    by (simp add: segmentPerformances_T objectPrototypeKeys_def)
  then have "collectStats [] ?ps = Inr (grouped ?ps)"
    by (rule collectStats_ok)
  moreover have "grouped ?ps =
     [(''Start to Crown King'', \<lparr>difficulties = [3], performances = [1/2], count_n = 1\<rparr>),
      (''Crown King to Whiskey Row'',
        \<lparr>difficulties = [3, 3], performances = [1/2, 1/2], count_n = 2\<rparr>)]"
    by (simp add: segmentPerformances_T grouped_def firstEncountered_def statsOf_def)
  ultimately show "segmentSummaries analysesT [31, 32] =
     Inr [\<lparr>seg_name = ''Start to Crown King'', avgDifficulty = 3, avgPerformance = 1/2,
            seg_count = 1\<rparr>,
          \<lparr>seg_name = ''Crown King to Whiskey Row'', avgDifficulty = 3, avgPerformance = 1/2,
            seg_count = 2\<rparr>]"
    by (simp add: segmentSummaries_def objectEntries_def isArrayIndex_examples toCritical_def
          mean_3 mean_3_3 mean_half mean_half_half)
  have "\<forall>p \<in> set ?qs. name p \<notin> set objectPrototypeKeys"
    by (simp add: segmentPerformances_T objectPrototypeKeys_def)
  then have "collectStats [] ?qs = Inr (grouped ?qs)"
    by (rule collectStats_ok)
  moreover have "grouped ?qs =
     [(''Crown King to Whiskey Row'',
        \<lparr>difficulties = [3, 3], performances = [1/2, 1/2], count_n = 2\<rparr>),
      (''Start to Crown King'', \<lparr>difficulties = [3], performances = [1/2], count_n = 1\<rparr>)]"
    by (simp add: segmentPerformances_T grouped_def firstEncountered_def statsOf_def)
  ultimately show "segmentSummaries analysesT [32, 31] =
     Inr [\<lparr>seg_name = ''Crown King to Whiskey Row'', avgDifficulty = 3, avgPerformance = 1/2,
            seg_count = 2\<rparr>,
          \<lparr>seg_name = ''Start to Crown King'', avgDifficulty = 3, avgPerformance = 1/2,
            seg_count = 1\<rparr>]"
    by (simp add: segmentSummaries_def objectEntries_def isArrayIndex_examples toCritical_def
          mean_3 mean_3_3 mean_half mean_half_half)
qed

lemma criticalSegments_T:
  "criticalSegments analysesT [31, 32] =
     Inr [\<lparr>seg_name = ''Start to Crown King'', avgDifficulty = 3, avgPerformance = 1/2,
            seg_count = 1\<rparr>,
          \<lparr>seg_name = ''Crown King to Whiskey Row'', avgDifficulty = 3, avgPerformance = 1/2,
            seg_count = 2\<rparr>]"
  "criticalSegments analysesT [32, 31] =
     Inr [\<lparr>seg_name = ''Crown King to Whiskey Row'', avgDifficulty = 3, avgPerformance = 1/2,
            seg_count = 2\<rparr>,
          \<lparr>seg_name = ''Start to Crown King'', avgDifficulty = 3, avgPerformance = 1/2,
            seg_count = 1\<rparr>]"
  by (simp_all add: criticalSegments_def segmentSummaries_T)

text \<open>
  Ratings whose sum depends on the order of the summands: 0.3 + 0.2 + 0.1 is
  0.6 and its third is 0.19999999999999998, while 0.1 + 0.2 + 0.3 is 0.6000000000000001
  and its third is 0.20000000000000004.
\<close>

lemma segmentPerformances_R:
  "segmentPerformances analysesR [51, 52, 53] =
     [\<lparr>name = ''Climb'', difficulty = d0_3, performance = 1/2, perf_runnerId = 51\<rparr>,
      \<lparr>name = ''Descent'', difficulty = d0_1, performance = 1/2, perf_runnerId = 51\<rparr>,
      \<lparr>name = ''Climb'', difficulty = d0_2, performance = 1/2, perf_runnerId = 52\<rparr>,
      \<lparr>name = ''Descent'', difficulty = d0_2, performance = 1/2, perf_runnerId = 52\<rparr>,
      \<lparr>name = ''Climb'', difficulty = d0_1, performance = 1/2, perf_runnerId = 53\<rparr>,
      \<lparr>name = ''Descent'', difficulty = d0_3, performance = 1/2, perf_runnerId = 53\<rparr>]"
  "segmentPerformances analysesR [53, 52, 51] =
     [\<lparr>name = ''Climb'', difficulty = d0_1, performance = 1/2, perf_runnerId = 53\<rparr>,
      \<lparr>name = ''Descent'', difficulty = d0_3, performance = 1/2, perf_runnerId = 53\<rparr>,
      \<lparr>name = ''Climb'', difficulty = d0_2, performance = 1/2, perf_runnerId = 52\<rparr>,
      \<lparr>name = ''Descent'', difficulty = d0_2, performance = 1/2, perf_runnerId = 52\<rparr>,
      \<lparr>name = ''Climb'', difficulty = d0_3, performance = 1/2, perf_runnerId = 51\<rparr>,
      \<lparr>name = ''Descent'', difficulty = d0_1, performance = 1/2, perf_runnerId = 51\<rparr>]"
  by (simp_all add: segmentPerformances_def runnerSegments_def analysesR_def courseOf_def
        toPerformance_def num_or_def doubles_nonzero)

lemma segmentSummaries_R:
  "segmentSummaries analysesR [51, 52, 53] =
     Inr [\<lparr>seg_name = ''Climb'', avgDifficulty = 7205759403792793 / 2 ^ 55,
            avgPerformance = 1/2, seg_count = 3\<rparr>,
          \<lparr>seg_name = ''Descent'', avgDifficulty = 7205759403792795 / 2 ^ 55,
            avgPerformance = 1/2, seg_count = 3\<rparr>]"
  "segmentSummaries analysesR [53, 52, 51] =
     Inr [\<lparr>seg_name = ''Climb'', avgDifficulty = 7205759403792795 / 2 ^ 55,
            avgPerformance = 1/2, seg_count = 3\<rparr>,
          \<lparr>seg_name = ''Descent'', avgDifficulty = 7205759403792793 / 2 ^ 55,
            avgPerformance = 1/2, seg_count = 3\<rparr>]"
proof -
  let ?ps = "segmentPerformances analysesR [51, 52, 53]"
  let ?qs = "segmentPerformances analysesR [53, 52, 51]"
  have "\<forall>p \<in> set ?ps. name p \<notin> set objectPrototypeKeys"
    by (simp add: segmentPerformances_R objectPrototypeKeys_def)
  then have "collectStats [] ?ps = Inr (grouped ?ps)"
    by (rule collectStats_ok)
  moreover have "grouped ?ps =
     [(''Climb'', \<lparr>difficulties = [d0_3, d0_2, d0_1], performances = [1/2, 1/2, 1/2],
         count_n = 3\<rparr>),
      (''Descent'', \<lparr>difficulties = [d0_1, d0_2, d0_3], performances = [1/2, 1/2, 1/2],
         count_n = 3\<rparr>)]"
    by (simp add: segmentPerformances_R grouped_def firstEncountered_def statsOf_def)
  ultimately show "segmentSummaries analysesR [51, 52, 53] =
     Inr [\<lparr>seg_name = ''Climb'', avgDifficulty = 7205759403792793 / 2 ^ 55,
            avgPerformance = 1/2, seg_count = 3\<rparr>,
          \<lparr>seg_name = ''Descent'', avgDifficulty = 7205759403792795 / 2 ^ 55,
            avgPerformance = 1/2, seg_count = 3\<rparr>]"
    by (simp add: segmentSummaries_def objectEntries_def isArrayIndex_examples toCritical_def
          mean_0_3_0_2_0_1 mean_0_1_0_2_0_3 mean_half_half_half)
  have "\<forall>p \<in> set ?qs. name p \<notin> set objectPrototypeKeys"
    by (simp add: segmentPerformances_R objectPrototypeKeys_def)
  then have "collectStats [] ?qs = Inr (grouped ?qs)"
    by (rule collectStats_ok)
  moreover have "grouped ?qs =
     [(''Climb'', \<lparr>difficulties = [d0_1, d0_2, d0_3], performances = [1/2, 1/2, 1/2],
         count_n = 3\<rparr>),
      (''Descent'', \<lparr>difficulties = [d0_3, d0_2, d0_1], performances = [1/2, 1/2, 1/2],
         count_n = 3\<rparr>)]"
    by (simp add: segmentPerformances_R grouped_def firstEncountered_def statsOf_def)
  ultimately show "segmentSummaries analysesR [53, 52, 51] =
     Inr [\<lparr>seg_name = ''Climb'', avgDifficulty = 7205759403792795 / 2 ^ 55,
            avgPerformance = 1/2, seg_count = 3\<rparr>,
          \<lparr>seg_name = ''Descent'', avgDifficulty = 7205759403792793 / 2 ^ 55,
            avgPerformance = 1/2, seg_count = 3\<rparr>]"
    by (simp add: segmentSummaries_def objectEntries_def isArrayIndex_examples toCritical_def
          mean_0_3_0_2_0_1 mean_0_1_0_2_0_3 mean_half_half_half)
qed

lemma criticalSegments_R:
  "criticalSegments analysesR [51, 52, 53] =
     Inr [\<lparr>seg_name = ''Descent'', avgDifficulty = 7205759403792795 / 2 ^ 55,
            avgPerformance = 1/2, seg_count = 3\<rparr>,
          \<lparr>seg_name = ''Climb'', avgDifficulty = 7205759403792793 / 2 ^ 55,
            avgPerformance = 1/2, seg_count = 3\<rparr>]"
  "criticalSegments analysesR [53, 52, 51] =
     Inr [\<lparr>seg_name = ''Climb'', avgDifficulty = 7205759403792795 / 2 ^ 55,
            avgPerformance = 1/2, seg_count = 3\<rparr>,
          \<lparr>seg_name = ''Descent'', avgDifficulty = 7205759403792793 / 2 ^ 55,
            avgPerformance = 1/2, seg_count = 3\<rparr>]"
  by (simp_all add: criticalSegments_def segmentSummaries_R)

subsection \<open>Names on which the statistics object is not a dictionary\<close>

lemma segmentPerformances_I:
  "segmentPerformances analysesI [41] =
     [\<lparr>name = ''Start'', difficulty = 3, performance = 1/2, perf_runnerId = 41\<rparr>,
      \<lparr>name = ''2'', difficulty = 3, performance = 1/2, perf_runnerId = 41\<rparr>,
      \<lparr>name = ''1'', difficulty = 3, performance = 1/2, perf_runnerId = 41\<rparr>]"
  by (simp add: segmentPerformances_def runnerSegments_def analysesI_def courseOf_def
        toPerformance_def num_or_def)

lemma grouped_I:
  "grouped (segmentPerformances analysesI [41]) =
     [(''Start'', \<lparr>difficulties = [3], performances = [1/2], count_n = 1\<rparr>),
      (''2'', \<lparr>difficulties = [3], performances = [1/2], count_n = 1\<rparr>),
      (''1'', \<lparr>difficulties = [3], performances = [1/2], count_n = 1\<rparr>)]"
  by (simp add: segmentPerformances_I grouped_def firstEncountered_def statsOf_def)

lemma array_index_names_first:
  "criticalSegments analysesI [41] =
     Inr [\<lparr>seg_name = ''1'', avgDifficulty = 3, avgPerformance = 1/2, seg_count = 1\<rparr>,
          \<lparr>seg_name = ''2'', avgDifficulty = 3, avgPerformance = 1/2, seg_count = 1\<rparr>,
          \<lparr>seg_name = ''Start'', avgDifficulty = 3, avgPerformance = 1/2, seg_count = 1\<rparr>]"
proof -
  have "\<forall>p \<in> set (segmentPerformances analysesI [41]). name p \<notin> set objectPrototypeKeys"
    by (simp add: segmentPerformances_I objectPrototypeKeys_def)
  then have "collectStats [] (segmentPerformances analysesI [41]) =
      Inr (grouped (segmentPerformances analysesI [41]))"
    by (rule collectStats_ok)
  moreover have "objectEntries (grouped (segmentPerformances analysesI [41])) =
     [(''1'', \<lparr>difficulties = [3], performances = [1/2], count_n = 1\<rparr>),
      (''2'', \<lparr>difficulties = [3], performances = [1/2], count_n = 1\<rparr>),
      (''Start'', \<lparr>difficulties = [3], performances = [1/2], count_n = 1\<rparr>)]"
    unfolding grouped_I by (simp add: objectEntries_def isArrayIndex_examples)
  ultimately show ?thesis
    by (simp add: criticalSegments_def segmentSummaries_def toCritical_def mean_3 mean_half)
qed

lemma segmentNames_I: "segmentNames analysesI [41] = [''Start'', ''2'', ''1'']"
  by (simp add: segmentNames_def segmentPerformances_I firstEncountered_def)

lemma inherited_key_throws: "criticalSegments analysesK [42] = Inl TypeError"
proof -
  have "segmentPerformances analysesK [42] =
      [\<lparr>name = ''constructor'', difficulty = 3, performance = 1/2, perf_runnerId = 42\<rparr>]"
    by (simp add: segmentPerformances_def runnerSegments_def analysesK_def courseOf_def
          toPerformance_def num_or_def)
  then have "collectStats [] (segmentPerformances analysesK [42]) = Inl TypeError"
    by (simp add: addPerformance_def objectPrototypeKeys_def)
  then show ?thesis
    by (simp add: criticalSegments_def segmentSummaries_def)
qed

lemma repeated_name_counted_twice:
  "criticalSegments analysesL [43] =
     Inr [\<lparr>seg_name = ''Loop'', avgDifficulty = 3, avgPerformance = 1/2, seg_count = 2\<rparr>]"
  "contributingRunners analysesL [43] ''Loop'' = [43]"
proof -
  have p: "segmentPerformances analysesL [43] =
      [\<lparr>name = ''Loop'', difficulty = 2, performance = 1/2, perf_runnerId = 43\<rparr>,
       \<lparr>name = ''Loop'', difficulty = 4, performance = 1/2, perf_runnerId = 43\<rparr>]"
    by (simp add: segmentPerformances_def runnerSegments_def analysesL_def courseOf_def
          toPerformance_def num_or_def)
  have "\<forall>p \<in> set (segmentPerformances analysesL [43]). name p \<notin> set objectPrototypeKeys"
    by (simp add: p objectPrototypeKeys_def)
  then have "collectStats [] (segmentPerformances analysesL [43]) =
      Inr (grouped (segmentPerformances analysesL [43]))"
    by (rule collectStats_ok)
  moreover have "grouped (segmentPerformances analysesL [43]) =
      [(''Loop'', \<lparr>difficulties = [2, 4], performances = [1/2, 1/2], count_n = 2\<rparr>)]"
    by (simp add: p grouped_def firstEncountered_def statsOf_def)
  ultimately show "criticalSegments analysesL [43] =
     Inr [\<lparr>seg_name = ''Loop'', avgDifficulty = 3, avgPerformance = 1/2, seg_count = 2\<rparr>]"
    by (simp add: criticalSegments_def segmentSummaries_def toCritical_def objectEntries_def
          isArrayIndex_examples mean_2_4 mean_half_half)
  have "segment_name ` set (runnerSegments analysesL 43) = {''Loop''}"
    by (simp add: runnerSegments_def analysesL_def courseOf_def)
  then show "contributingRunners analysesL [43] ''Loop'' = [43]"
    by (simp add: contributingRunners_def)
qed

lemma segmentNames_R: "segmentNames analysesR [51, 52, 53] = [''Climb'', ''Descent'']"
  by (simp add: segmentNames_def segmentPerformances_R firstEncountered_def)

text \<open>
  Claim C5. On Scenario D of the specification the ranking is the documented one: the
  segment from Crown King to Whiskey Row, with mean difficulty 4, comes before the
  segment with mean 3, each with its mean performance and a count of 2. The code misses
  the claim where the statistics object is not a dictionary. Names that are array
  indices are ranked first and in numeric order, not in the order in which they were
  met; a name that every object inherits makes the loop throw; and a name that a runner
  lists twice is counted twice, so that the count 2 is not the number of contributing
  runners, which is 1. The means are double precision sums in the order of the runners,
  divided by the count: of two segments rated 0.3, 0.2, 0.1 and 0.1, 0.2, 0.3, the second
  gets the greater mean and is ranked first, although the first was met first.
\<close>

theorem critical_segments_failing_inputs:
  "criticalSegments analysesD [21, 22] =
     Inr [\<lparr>seg_name = ''Crown King to Whiskey Row'', avgDifficulty = 4, avgPerformance = 3/4,
            seg_count = 2\<rparr>,
          \<lparr>seg_name = ''Start to Crown King'', avgDifficulty = 3, avgPerformance = 1/2,
            seg_count = 2\<rparr>] \<and>
   segmentNames analysesI [41] = [''Start'', ''2'', ''1''] \<and>
   criticalSegments analysesI [41] =
     Inr [\<lparr>seg_name = ''1'', avgDifficulty = 3, avgPerformance = 1/2, seg_count = 1\<rparr>,
          \<lparr>seg_name = ''2'', avgDifficulty = 3, avgPerformance = 1/2, seg_count = 1\<rparr>,
          \<lparr>seg_name = ''Start'', avgDifficulty = 3, avgPerformance = 1/2, seg_count = 1\<rparr>] \<and>
   criticalSegments analysesK [42] = Inl TypeError \<and>
   criticalSegments analysesL [43] =
     Inr [\<lparr>seg_name = ''Loop'', avgDifficulty = 3, avgPerformance = 1/2, seg_count = 2\<rparr>] \<and>
   contributingRunners analysesL [43] ''Loop'' = [43] \<and>
   segmentNames analysesR [51, 52, 53] = [''Climb'', ''Descent''] \<and>
   (d0_3 + d0_2 + d0_1) / 3 = (d0_1 + d0_2 + d0_3) / 3 \<and>
   criticalSegments analysesR [51, 52, 53] =
     Inr [\<lparr>seg_name = ''Descent'', avgDifficulty = 7205759403792795 / 2 ^ 55,
            avgPerformance = 1/2, seg_count = 3\<rparr>,
          \<lparr>seg_name = ''Climb'', avgDifficulty = 7205759403792793 / 2 ^ 55,
            avgPerformance = 1/2, seg_count = 3\<rparr>]"
proof -
  have "(d0_3 + d0_2 + d0_1) / 3 = (d0_1 + d0_2 + d0_3) / 3"
    by simp
  then show ?thesis
    using criticalSegments_D segmentNames_I array_index_names_first inherited_key_throws
      repeated_name_counted_twice segmentNames_R criticalSegments_R(1)
    by (simp only: simp_thms)
qed

subsection \<open>Permuting the selected runners\<close>

text \<open>
  Claim C7 fails as stated. Where all segments have the same mean difficulty, the
  ranking lists them in the order in which they are first met, which the order of the
  selected runners decides. Where three runners rate two segments 0.3, 0.2, 0.1 and
  0.1, 0.2, 0.3, the sums are taken in the order of the runners: reversing the runners
  exchanges the two means and the two places of the ranking.
\<close>

theorem ranking_permutation_counterexample:
  "mset [32, 31] = mset [31, 32::nat] \<and>
   criticalSegments analysesT [31, 32] =
     Inr [\<lparr>seg_name = ''Start to Crown King'', avgDifficulty = 3, avgPerformance = 1/2,
            seg_count = 1\<rparr>,
          \<lparr>seg_name = ''Crown King to Whiskey Row'', avgDifficulty = 3, avgPerformance = 1/2,
            seg_count = 2\<rparr>] \<and>
   criticalSegments analysesT [32, 31] =
     Inr [\<lparr>seg_name = ''Crown King to Whiskey Row'', avgDifficulty = 3, avgPerformance = 1/2,
            seg_count = 2\<rparr>,
          \<lparr>seg_name = ''Start to Crown King'', avgDifficulty = 3, avgPerformance = 1/2,
            seg_count = 1\<rparr>] \<and>
   criticalSegments analysesT [32, 31] \<noteq> criticalSegments analysesT [31, 32] \<and>
   mset [53, 52, 51] = mset [51, 52, 53::nat] \<and>
   criticalSegments analysesR [51, 52, 53] =
     Inr [\<lparr>seg_name = ''Descent'', avgDifficulty = 7205759403792795 / 2 ^ 55,
            avgPerformance = 1/2, seg_count = 3\<rparr>,
          \<lparr>seg_name = ''Climb'', avgDifficulty = 7205759403792793 / 2 ^ 55,
            avgPerformance = 1/2, seg_count = 3\<rparr>] \<and>
   criticalSegments analysesR [53, 52, 51] =
     Inr [\<lparr>seg_name = ''Climb'', avgDifficulty = 7205759403792795 / 2 ^ 55,
            avgPerformance = 1/2, seg_count = 3\<rparr>,
          \<lparr>seg_name = ''Descent'', avgDifficulty = 7205759403792793 / 2 ^ 55,
            avgPerformance = 1/2, seg_count = 3\<rparr>] \<and>
   criticalSegments analysesR [53, 52, 51] \<noteq> criticalSegments analysesR [51, 52, 53]"
  by (simp add: criticalSegments_T criticalSegments_R)

lemma mset_concat_map:
  "mset (concat (map f xs)) = (\<Sum>x \<in># mset xs. mset (f x))"
  by (induction xs) simp_all

lemma segmentPerformances_perm:
  assumes "mset sel' = mset sel"
  shows "mset (segmentPerformances an sel') = mset (segmentPerformances an sel)"
proof -
  let ?f = "\<lambda>rid. map (toPerformance rid) (runnerSegments an rid)"
  have "mset (concat (map ?f sel')) = (\<Sum>x \<in># mset sel'. mset (?f x))"
    by (rule mset_concat_map)
  also have "\<dots> = (\<Sum>x \<in># mset sel. mset (?f x))"
    by (simp only: assms)
  also have "\<dots> = mset (concat (map ?f sel))"
    by (rule mset_concat_map [symmetric])
  finally show ?thesis
    by (simp only: segmentPerformances_def)
qed

lemma map_filter_perm:
  assumes "mset ps' = mset ps"
  shows "mset (map f (filter P ps')) = mset (map f (filter P ps))"
proof -
  have "mset (filter P ps') = mset (filter P ps)"
    by (simp only: mset_filter assms)
  then show ?thesis
    by (simp only: mset_map)
qed

lemma foldl_dadd_two:
  fixes xs ys :: "real list"
  assumes m: "mset xs = mset ys" and l: "length xs \<le> 2" and d: "\<forall>x \<in> set xs. round64 x = x"
  shows "foldl dadd 0 xs = foldl dadd 0 ys"
proof -
  have len: "length ys = length xs"
    using mset_eq_length [OF m] by simp
  show ?thesis
  proof (cases xs)
    case Nil
    with len show ?thesis by simp
  next
    case xs: (Cons a xs')
    show ?thesis
    proof (cases xs')
      case Nil
      with xs len obtain c where ys: "ys = [c]"
        by (auto simp: length_Suc_conv)
      with m xs Nil have "c = a" by simp
      with ys xs Nil show ?thesis by simp
    next
      case (Cons b xs'')
      with l xs have e: "xs = [a, b]" by simp
      with len obtain c c' where ys: "ys = [c, c']"
        by (auto simp: length_Suc_conv)
      from m e ys have "c = a \<and> c' = b \<or> c = b \<and> c' = a"
        by (auto simp: add_eq_conv_diff)
      moreover have "dadd (dadd 0 a) b = dadd (dadd 0 b) a"
        using d e by (simp add: dadd_zero dadd_commute)
      ultimately show ?thesis
        using e ys by auto
    qed
  qed
qed

lemma length_filter_perm:
  assumes "mset ps' = mset ps"
  shows "length (filter P ps') = length (filter P ps)"
proof -
  have "mset (filter P ps') = mset (filter P ps)"
    by (simp only: mset_filter assms)
  then show ?thesis
    by (rule mset_eq_length)
qed

lemma toCritical_perm:
  assumes m: "mset ps' = mset ps"
    and d: "\<forall>p \<in> set ps. round64 (difficulty p) = difficulty p \<and>
        round64 (performance p) = performance p"
    and l: "length (filter (\<lambda>p. name p = n) ps) \<le> 2"
  shows "toCritical (n, statsOf ps' n) = toCritical (n, statsOf ps n)"
proof -
  let ?f = "\<lambda>qs. filter (\<lambda>p. name p = n) qs"
  have "foldl dadd 0 (map difficulty (?f ps)) = foldl dadd 0 (map difficulty (?f ps'))"
  proof (rule foldl_dadd_two)
    show "mset (map difficulty (?f ps)) = mset (map difficulty (?f ps'))"
      by (rule map_filter_perm [OF m, symmetric])
    show "length (map difficulty (?f ps)) \<le> 2"
      using l by simp
    show "\<forall>x \<in> set (map difficulty (?f ps)). round64 x = x"
      using d by auto
  qed
  moreover have "foldl dadd 0 (map performance (?f ps)) = foldl dadd 0 (map performance (?f ps'))"
  proof (rule foldl_dadd_two)
    show "mset (map performance (?f ps)) = mset (map performance (?f ps'))"
      by (rule map_filter_perm [OF m, symmetric])
    show "length (map performance (?f ps)) \<le> 2"
      using l by simp
    show "\<forall>x \<in> set (map performance (?f ps)). round64 x = x"
      using d by auto
  qed
  moreover have "length (?f ps') = length (?f ps)"
    by (rule length_filter_perm [OF m])
  ultimately show ?thesis
    unfolding toCritical_def statsOf_def by simp
qed

lemma firstEncountered_perm:
  assumes "set xs' = set xs"
  shows "mset (firstEncountered xs') = mset (firstEncountered xs)"
proof -
  have "set (firstEncountered xs') = set (firstEncountered xs)"
    using assms by (simp only: firstEncountered_set)
  with set_eq_iff_mset_eq_distinct [OF firstEncountered_distinct firstEncountered_distinct]
  show ?thesis by blast
qed

lemma grouped_perm:
  assumes "mset ps' = mset ps"
    and eq: "\<And>n. F (n, statsOf ps' n) = F (n, statsOf ps n)"
  shows "mset (map F (objectEntries (grouped ps'))) = mset (map F (objectEntries (grouped ps)))"
proof -
  let ?g = "\<lambda>n. F (n, statsOf ps n)"
  have "set ps' = set ps"
    using assms(1) by (rule mset_eq_setD)
  then have "set (map name ps') = set (map name ps)"
    by (simp only: set_map)
  then have n: "mset (firstEncountered (map name ps')) = mset (firstEncountered (map name ps))"
    by (rule firstEncountered_perm)
  have "map F (grouped ps') = map ?g (firstEncountered (map name ps'))"
    unfolding grouped_def map_map comp_def eq ..
  moreover have "map F (grouped ps) = map ?g (firstEncountered (map name ps))"
    unfolding grouped_def map_map comp_def ..
  moreover have "mset (map ?g (firstEncountered (map name ps'))) =
      mset (map ?g (firstEncountered (map name ps)))"
    by (simp only: mset_map n)
  ultimately have "mset (map F (grouped ps')) = mset (map F (grouped ps))"
    by (simp only:)
  then show ?thesis
    by (simp only: mset_map objectEntries_mset)
qed

lemma name_count_perm:
  assumes "mset ps' = mset ps"
  shows "mset (map (\<lambda>c. (seg_name c, seg_count c)) (map toCritical (objectEntries (grouped ps')))) =
     mset (map (\<lambda>c. (seg_name c, seg_count c)) (map toCritical (objectEntries (grouped ps))))"
proof -
  let ?F = "\<lambda>e. (seg_name (toCritical e), seg_count (toCritical e))"
  have "?F (n, statsOf ps' n) = ?F (n, statsOf ps n)" for n
    using length_filter_perm [OF assms, of "\<lambda>p. name p = n"]
    by (simp add: toCritical_def statsOf_def)
  then have "mset (map ?F (objectEntries (grouped ps'))) = mset (map ?F (objectEntries (grouped ps)))"
    by (rule grouped_perm [OF assms])
  then show ?thesis
    by (simp only: map_map comp_def)
qed

lemma count_statsOf:
  assumes "\<forall>c \<in> set (map toCritical (objectEntries (grouped ps))). seg_count c \<le> 2"
  shows "length (filter (\<lambda>p. name p = n) ps) \<le> 2"
proof (cases "n \<in> name ` set ps")
  case True
  then have "(n, statsOf ps n) \<in> set (grouped ps)"
    by (simp add: grouped_def image_iff)
  moreover have "set (objectEntries (grouped ps)) = set (grouped ps)"
    using objectEntries_mset [of "grouped ps"] by (rule mset_eq_setD)
  ultimately have "toCritical (n, statsOf ps n) \<in> set (map toCritical (objectEntries (grouped ps)))"
    by simp
  with assms have "seg_count (toCritical (n, statsOf ps n)) \<le> 2"
    by blast
  then show ?thesis
    by (simp add: toCritical_def statsOf_def)
next
  case False
  then have "filter (\<lambda>p. name p = n) ps = []"
    by (auto simp: filter_empty_conv)
  then show ?thesis by simp
qed

lemma summaries_perm:
  assumes m: "mset ps' = mset ps"
    and d: "\<forall>p \<in> set ps. round64 (difficulty p) = difficulty p \<and>
        round64 (performance p) = performance p"
    and l: "\<forall>c \<in> set (map toCritical (objectEntries (grouped ps))). seg_count c \<le> 2"
  shows "mset (map toCritical (objectEntries (grouped ps'))) =
     mset (map toCritical (objectEntries (grouped ps)))"
proof (rule grouped_perm [OF m])
  fix n
  show "toCritical (n, statsOf ps' n) = toCritical (n, statsOf ps n)"
    by (rule toCritical_perm [OF m d count_statsOf [OF l]])
qed

lemma ranking_perm:
  assumes m: "mset summaries' = mset summaries" and d: "distinct (map avgDifficulty summaries)"
  shows "sort_key (\<lambda>c. - avgDifficulty c) summaries' = sort_key (\<lambda>c. - avgDifficulty c) summaries"
proof -
  have "inj_on avgDifficulty (set summaries)"
    using d by (simp add: distinct_map)
  then have "inj_on (\<lambda>c. - avgDifficulty c) (set summaries)"
    by (simp add: inj_on_def)
  moreover have "set summaries' = set summaries"
    using m by (rule mset_eq_setD)
  ultimately have "inj_on (\<lambda>c. - avgDifficulty c) (set summaries')"
    by (simp only:)
  from sort_key_eq_sort_key [OF m this] show ?thesis .
qed

text \<open>
  Claim C7, amended. Permuting the selected runners leaves an error the same error, and
  leaves the names and the counts of the segment entries unchanged as a collection. The
  means are double precision sums in the order of the runners. When the ratings and
  scores are doubles and no segment has more than two of them, the entries are
  unchanged as a collection, and the ranking is unchanged when moreover no two segments
  have the same mean difficulty.
\<close>

theorem ranking_permutation_invariant:
  assumes "mset sel' = mset sel"
  shows "(\<forall>e. segmentSummaries an sel = Inl e \<longrightarrow> criticalSegments an sel' = Inl e) \<and>
     (\<forall>summaries. segmentSummaries an sel = Inr summaries \<longrightarrow>
        (\<exists>summaries'. segmentSummaries an sel' = Inr summaries' \<and>
           mset (map (\<lambda>c. (seg_name c, seg_count c)) summaries') =
             mset (map (\<lambda>c. (seg_name c, seg_count c)) summaries) \<and>
           ((\<forall>p \<in> set (segmentPerformances an sel).
                round64 (difficulty p) = difficulty p \<and> round64 (performance p) = performance p) \<and>
            (\<forall>c \<in> set summaries. seg_count c \<le> 2) \<longrightarrow>
              mset summaries' = mset summaries \<and>
              (distinct (map avgDifficulty summaries) \<longrightarrow>
                 criticalSegments an sel' = criticalSegments an sel))))"
proof (intro conjI allI impI)
  let ?ps = "segmentPerformances an sel" and ?ps' = "segmentPerformances an sel'"
  let ?bad = "\<lambda>ps. \<exists>p \<in> set ps. name p \<in> set objectPrototypeKeys"
  have m: "mset ?ps' = mset ?ps"
    by (rule segmentPerformances_perm [OF assms])
  then have s: "set ?ps' = set ?ps"
    by (rule mset_eq_setD)
  {
    fix e
    assume a: "segmentSummaries an sel = Inl e"
    then have "?bad ?ps" "e = TypeError"
      using segmentSummaries_cases [of an sel] by auto
    then have "?bad ?ps'" by (simp add: s)
    then have "segmentSummaries an sel' = Inl TypeError"
      using segmentSummaries_cases [of an sel'] by blast
    then show "criticalSegments an sel' = Inl e"
      using \<open>e = TypeError\<close> by (simp add: criticalSegments_def)
  }
  fix summaries
  assume a: "segmentSummaries an sel = Inr summaries"
  then have ok: "\<not> ?bad ?ps" and v: "summaries = map toCritical (objectEntries (grouped ?ps))"
    using segmentSummaries_cases [of an sel] by auto
  from ok have "\<not> ?bad ?ps'" by (simp add: s)
  then have b: "segmentSummaries an sel' = Inr (map toCritical (objectEntries (grouped ?ps')))"
    using segmentSummaries_cases [of an sel'] by blast
  let ?summaries' = "map toCritical (objectEntries (grouped ?ps'))"
  have c: "mset (map (\<lambda>c. (seg_name c, seg_count c)) ?summaries') =
      mset (map (\<lambda>c. (seg_name c, seg_count c)) summaries)"
    unfolding v by (rule name_count_perm [OF m])
  have e: "mset ?summaries' = mset summaries \<and>
      (distinct (map avgDifficulty summaries) \<longrightarrow>
         criticalSegments an sel' = criticalSegments an sel)"
    if d: "(\<forall>p \<in> set ?ps. round64 (difficulty p) = difficulty p \<and>
              round64 (performance p) = performance p) \<and>
           (\<forall>c \<in> set summaries. seg_count c \<le> 2)"
  proof -
    from d have d1: "\<forall>p \<in> set ?ps. round64 (difficulty p) = difficulty p \<and>
        round64 (performance p) = performance p"
      and d2: "\<forall>c \<in> set (map toCritical (objectEntries (grouped ?ps))). seg_count c \<le> 2"
      unfolding v by blast+
    have eq: "mset ?summaries' = mset summaries"
      unfolding v by (rule summaries_perm [OF m d1 d2])
    have "criticalSegments an sel' = criticalSegments an sel"
      if "distinct (map avgDifficulty summaries)"
      using ranking_perm [OF eq that] by (simp add: criticalSegments_def a b)
    with eq show ?thesis by blast
  qed
  show "\<exists>summaries'. segmentSummaries an sel' = Inr summaries' \<and>
           mset (map (\<lambda>c. (seg_name c, seg_count c)) summaries') =
             mset (map (\<lambda>c. (seg_name c, seg_count c)) summaries) \<and>
           ((\<forall>p \<in> set (segmentPerformances an sel).
                round64 (difficulty p) = difficulty p \<and> round64 (performance p) = performance p) \<and>
            (\<forall>c \<in> set summaries. seg_count c \<le> 2) \<longrightarrow>
              mset summaries' = mset summaries \<and>
              (distinct (map avgDifficulty summaries) \<longrightarrow>
                 criticalSegments an sel' = criticalSegments an sel))"
    using b c e by blast
qed

lemma doubles_D:
  "\<forall>p \<in> set (segmentPerformances analysesD [21, 22]).
     round64 (difficulty p) = difficulty p \<and> round64 (performance p) = performance p"
proof -
  have "round64 (5/2) = 5/2" using round64_exact [of "5/2" 5 "- 1"] by (simp add: pow2_def)
  moreover have "round64 (7/2) = 7/2" using round64_exact [of "7/2" 7 "- 1"] by (simp add: pow2_def)
  moreover have "round64 (9/2) = 9/2" using round64_exact [of "9/2" 9 "- 1"] by (simp add: pow2_def)
  moreover have "round64 (3/4) = 3/4" using round64_exact [of "3/4" 3 "- 2"] by (simp add: pow2_def)
  moreover have "round64 (1/4) = 1/4" using round64_exact [of "1/4" 1 "- 2"] by (simp add: pow2_def)
  moreover have "round64 (7/8) = 7/8" using round64_exact [of "7/8" 7 "- 3"] by (simp add: pow2_def)
  moreover have "round64 (5/8) = 5/8" using round64_exact [of "5/8" 5 "- 3"] by (simp add: pow2_def)
  ultimately show ?thesis
    by (simp add: segmentPerformances_D)
qed

theorem ranking_permutation_invariant_witness:
  "mset [22, 21] = mset [21, 22::nat] \<and>
   segmentSummaries analysesD [21, 22] =
     Inr [\<lparr>seg_name = ''Start to Crown King'', avgDifficulty = 3, avgPerformance = 1/2,
            seg_count = 2\<rparr>,
          \<lparr>seg_name = ''Crown King to Whiskey Row'', avgDifficulty = 4, avgPerformance = 3/4,
            seg_count = 2\<rparr>] \<and>
   criticalSegments analysesD [22, 21] = criticalSegments analysesD [21, 22]"
proof -
  let ?summaries = "[\<lparr>seg_name = ''Start to Crown King'', avgDifficulty = 3, avgPerformance = 1/2,
            seg_count = 2\<rparr>,
          \<lparr>seg_name = ''Crown King to Whiskey Row'', avgDifficulty = 4, avgPerformance = 3/4,
            seg_count = 2\<rparr>]"
  have p: "mset [22, 21] = mset [21, 22::nat]" by simp
  note inst = ranking_permutation_invariant [OF p, of analysesD, THEN conjunct2, rule_format,
      OF segmentSummaries_D]
  then obtain summaries' where
    i: "(\<forall>p \<in> set (segmentPerformances analysesD [21, 22]).
           round64 (difficulty p) = difficulty p \<and> round64 (performance p) = performance p) \<and>
        (\<forall>c \<in> set ?summaries. seg_count c \<le> 2) \<longrightarrow>
          mset summaries' = mset ?summaries \<and>
          (distinct (map avgDifficulty ?summaries) \<longrightarrow>
             criticalSegments analysesD [22, 21] = criticalSegments analysesD [21, 22])"
    by blast
  have "\<forall>c \<in> set ?summaries. seg_count c \<le> 2"
    by simp
  moreover have "distinct (map avgDifficulty ?summaries)"
    by simp
  ultimately have "criticalSegments analysesD [22, 21] = criticalSegments analysesD [21, 22]"
    using i doubles_D by blast
  with p segmentSummaries_D show ?thesis by blast
qed

section \<open>Properties of the validation\<close>





end
